theory Spec2Isabelle
  imports Main "HOL-Library.Word" "HOL-Library.Sublist"
begin

section \<open>PKCE utilities (pkce.ts)\<close>

text \<open>
  A \<^verbatim>\<open>Uint8Array\<close> is a list of 8-bit words. JavaScript strings that the module builds
  are ASCII, so a string is a \<^typ>\<open>string\<close> and a "binary string" (one character per
  byte, as \<^verbatim>\<open>btoa\<close> expects) is a \<^typ>\<open>string\<close> too.
\<close>

type_synonym byte = "8 word"

subsection \<open>generateRandomString\<close>

text \<open>
  \<^verbatim>\<open>Number.prototype.toString(36)\<close> on a non-negative integer: digits \<^verbatim>\<open>0-9\<close> then
  \<^verbatim>\<open>a-z\<close>, most significant first, no leading zero.
\<close>

definition digits36 :: string where
  "digits36 = ''0123456789abcdefghijklmnopqrstuvwxyz''"

definition digit36 :: "nat \<Rightarrow> char" where
  "digit36 d = digits36 ! d"

function toString36 :: "nat \<Rightarrow> string" where
  "toString36 n =
     (if n < 36 then [digit36 n] else toString36 (n div 36) @ [digit36 (n mod 36)])"
  by pat_completeness auto
termination
  by (relation "measure id") auto

declare toString36.simps [simp del]

text \<open>\<^verbatim>\<open>s.padStart(n, c)\<close> for a one-character pad string \<open>c\<close>.\<close>

definition padStart :: "nat \<Rightarrow> char \<Rightarrow> string \<Rightarrow> string" where
  "padStart n c s = replicate (n - length s) c @ s"

text \<open>The callback of \<^verbatim>\<open>Array.from(array, (b) => b.toString(36).padStart(2, "0"))\<close>.\<close>

definition byteToBase36 :: "byte \<Rightarrow> string" where
  "byteToBase36 b = padStart 2 (CHR ''0'') (toString36 (unat b))"

text \<open>
  \<^verbatim>\<open>generateRandomString(length)\<close>. The second argument is the content of \<^verbatim>\<open>array\<close> after
  \<^verbatim>\<open>crypto.getRandomValues(array)\<close> has filled it; the source creates it with
  \<^verbatim>\<open>length\<close> elements, so the theorems below take \<open>length array = len\<close>.
  \<^verbatim>\<open>.join("")\<close> is \<^const>\<open>concat\<close> and \<^verbatim>\<open>.slice(0, length)\<close> is \<^const>\<open>take\<close>.
\<close>

definition generateRandomString :: "nat \<Rightarrow> byte list \<Rightarrow> string" where
  "generateRandomString len array = take len (concat (map byteToBase36 array))"

definition generateState :: "byte list \<Rightarrow> string" where
  "generateState array = generateRandomString 32 array"

subsection \<open>sha256 and base64UrlEncode\<close>

text \<open>
  \<^verbatim>\<open>TextEncoder.encode\<close> is UTF-8, which on ASCII text is one byte per character with
  the character's code.
\<close>

definition TextEncoder_encode :: "string \<Rightarrow> byte list" where
  "TextEncoder_encode plain = map (\<lambda>c. of_nat (of_char c)) plain"

text \<open>
  \<^verbatim>\<open>crypto.subtle.digest("SHA-256", ...)\<close> is an external primitive: the digest function
  is a parameter \<open>digest\<close> of everything that hashes.
\<close>

definition sha256 :: "(byte list \<Rightarrow> byte list) \<Rightarrow> string \<Rightarrow> byte list" where
  "sha256 digest plain = digest (TextEncoder_encode plain)"

text \<open>
  \<^verbatim>\<open>btoa\<close>: the platform's base64 encoder of a binary string, with the standard alphabet
  \<^verbatim>\<open>A-Z a-z 0-9 + /\<close> and \<^verbatim>\<open>=\<close> padding to a multiple of four characters.
\<close>

definition base64_alphabet :: string where
  "base64_alphabet = ''ABCDEFGHIJKLMNOPQRSTUVWXYZabcdefghijklmnopqrstuvwxyz0123456789+/''"

fun btoa :: "string \<Rightarrow> string" where
  "btoa [] = []"
| "btoa [a] =
     (let x = (of_char a :: nat) in
      [base64_alphabet ! (x div 4), base64_alphabet ! ((x mod 4) * 16), CHR ''='', CHR ''=''])"
| "btoa [a, b] =
     (let x = (of_char a :: nat); y = (of_char b :: nat) in
      [base64_alphabet ! (x div 4), base64_alphabet ! ((x mod 4) * 16 + y div 16),
       base64_alphabet ! ((y mod 16) * 4), CHR ''=''])"
| "btoa (a # b # c # rest) =
     (let x = (of_char a :: nat); y = (of_char b :: nat); z = (of_char c :: nat) in
      [base64_alphabet ! (x div 4), base64_alphabet ! ((x mod 4) * 16 + y div 16),
       base64_alphabet ! ((y mod 16) * 4 + z div 64), base64_alphabet ! (z mod 64)]
      @ btoa rest)"

text \<open>\<^verbatim>\<open>s.replace(/X/g, "Y")\<close> for single characters \<open>X\<close> and \<open>Y\<close>.\<close>

definition replaceAll :: "char \<Rightarrow> char \<Rightarrow> string \<Rightarrow> string" where
  "replaceAll x y s = map (\<lambda>c. if c = x then y else c) s"

text \<open>\<^verbatim>\<open>s.replace(/=+$/, "")\<close>: drop the run of \<^verbatim>\<open>=\<close> at the end of the string.\<close>

definition stripTrailingEquals :: "string \<Rightarrow> string" where
  "stripTrailingEquals s = rev (dropWhile (\<lambda>c. c = CHR ''='') (rev s))"

definition base64UrlEncode :: "byte list \<Rightarrow> string" where
  "base64UrlEncode buffer =
     (let binary = map (\<lambda>byte. char_of (unat byte)) buffer in
      stripTrailingEquals
        (replaceAll (CHR ''/'') (CHR ''_'') (replaceAll (CHR ''+'') (CHR ''-'') (btoa binary))))"

subsection \<open>generatePkceChallenge\<close>

record PkceChallenge =
  codeVerifier :: string
  codeChallenge :: string

definition generatePkceChallenge :: "(byte list \<Rightarrow> byte list) \<Rightarrow> byte list \<Rightarrow> PkceChallenge" where
  "generatePkceChallenge digest array =
     (let codeVerifier = generateRandomString 64 array;
          hash = sha256 digest codeVerifier;
          codeChallenge = base64UrlEncode hash
      in \<lparr>codeVerifier = codeVerifier, codeChallenge = codeChallenge\<rparr>)"

subsection \<open>The S256 challenge as the specification words it\<close>

text \<open>
  The URL-safe, unpadded base64 encoding (RFC 4648, section 5, padding omitted): each
  group of three bytes gives four characters of the alphabet \<^verbatim>\<open>A-Z a-z 0-9 - _\<close>; a
  final group of one byte gives two characters and one of two bytes gives three.
\<close>

definition base64url_alphabet :: string where
  "base64url_alphabet = ''ABCDEFGHIJKLMNOPQRSTUVWXYZabcdefghijklmnopqrstuvwxyz0123456789-_''"

fun base64url_unpadded :: "byte list \<Rightarrow> string" where
  "base64url_unpadded [] = []"
| "base64url_unpadded [a] =
     [base64url_alphabet ! (unat a div 4), base64url_alphabet ! ((unat a mod 4) * 16)]"
| "base64url_unpadded [a, b] =
     [base64url_alphabet ! (unat a div 4),
      base64url_alphabet ! ((unat a mod 4) * 16 + unat b div 16),
      base64url_alphabet ! ((unat b mod 16) * 4)]"
| "base64url_unpadded (a # b # c # rest) =
     [base64url_alphabet ! (unat a div 4),
      base64url_alphabet ! ((unat a mod 4) * 16 + unat b div 16),
      base64url_alphabet ! ((unat b mod 16) * 4 + unat c div 64),
      base64url_alphabet ! (unat c mod 64)]
     @ base64url_unpadded rest"

section \<open>Browser flows (browser.ts)\<close>

subsection \<open>Storage\<close>

text \<open>
  The Web Storage object: a map from string keys to string values. \<^verbatim>\<open>getItem\<close> gives
  \<^verbatim>\<open>null\<close> (here \<open>None\<close>) for a key that is not stored.
\<close>

type_synonym storage = "string \<rightharpoonup> string"

definition STORAGE_PREFIX :: string where
  "STORAGE_PREFIX = ''hanzo_iam_''"

definition KEY_STATE :: string where
  "KEY_STATE = STORAGE_PREFIX @ ''state''"

definition KEY_CODE_VERIFIER :: string where
  "KEY_CODE_VERIFIER = STORAGE_PREFIX @ ''code_verifier''"

definition KEY_ACCESS_TOKEN :: string where
  "KEY_ACCESS_TOKEN = STORAGE_PREFIX @ ''access_token''"

definition KEY_REFRESH_TOKEN :: string where
  "KEY_REFRESH_TOKEN = STORAGE_PREFIX @ ''refresh_token''"

definition KEY_ID_TOKEN :: string where
  "KEY_ID_TOKEN = STORAGE_PREFIX @ ''id_token''"

definition KEY_EXPIRES_AT :: string where
  "KEY_EXPIRES_AT = STORAGE_PREFIX @ ''expires_at''"

definition getItem :: "storage \<Rightarrow> string \<Rightarrow> string option" where
  "getItem s k = s k"

definition setItem :: "storage \<Rightarrow> string \<Rightarrow> string \<Rightarrow> storage" where
  "setItem s k v = s(k \<mapsto> v)"

definition removeItem :: "storage \<Rightarrow> string \<Rightarrow> storage" where
  "removeItem s k = s(k := None)"

text \<open>
  JavaScript truthiness of a \<^verbatim>\<open>string | null\<close>: \<^verbatim>\<open>null\<close> and the empty string are
  falsy.
\<close>

definition truthy :: "string option \<Rightarrow> bool" where
  "truthy v = (case v of None \<Rightarrow> False | Some s \<Rightarrow> s \<noteq> [])"

subsection \<open>Numbers and their decimal strings\<close>

text \<open>
  \<^verbatim>\<open>Date.now()\<close> is an integer count of milliseconds and \<^verbatim>\<open>expires_in\<close> a whole number
  of seconds, so the numbers of the token store are modelled as \<^typ>\<open>int\<close>; this is
  exact as long as the values stay below \<^verbatim>\<open>2^53\<close>, which every time value does.
  \<^verbatim>\<open>String(n)\<close> of such an integer is its decimal numeral, with a minus sign when negative.
\<close>

function decimal :: "nat \<Rightarrow> string" where
  "decimal n = (if n < 10 then [digit36 n] else decimal (n div 10) @ [digit36 (n mod 10)])"
  by pat_completeness auto
termination
  by (relation "measure id") auto

declare decimal.simps [simp del]

definition String_of_number :: "int \<Rightarrow> string" where
  "String_of_number i = (if i < 0 then CHR ''-'' # decimal (nat (- i)) else decimal (nat i))"

text \<open>
  \<^verbatim>\<open>Number(s)\<close> on the strings the token store writes: an optional sign and decimal
  digits give the integer, the empty string gives 0. \<open>None\<close> stands for \<^verbatim>\<open>NaN\<close>; the
  other numeric literal forms of JavaScript (fractions, exponents, hexadecimal,
  surrounding white space) are never written by \<^verbatim>\<open>storeTokens\<close> and are treated as
  \<^verbatim>\<open>NaN\<close> here.
\<close>

definition digit_value :: "char \<Rightarrow> nat option" where
  "digit_value c = map_of (zip ''0123456789'' [0 ..< 10]) c"

fun parse_digits :: "string \<Rightarrow> nat \<Rightarrow> nat option" where
  "parse_digits [] acc = Some acc"
| "parse_digits (c # cs) acc =
     (case digit_value c of None \<Rightarrow> None | Some d \<Rightarrow> parse_digits cs (acc * 10 + d))"

fun Number_of_string :: "string \<Rightarrow> int option" where
  "Number_of_string [] = Some 0"
| "Number_of_string (c # cs) =
     (if c = CHR ''-'' \<and> cs \<noteq> [] then map_option (\<lambda>n. - int n) (parse_digits cs 0)
      else if c = CHR ''+'' \<and> cs \<noteq> [] then map_option int (parse_digits cs 0)
      else map_option int (parse_digits (c # cs) 0))"

subsection \<open>Configuration, HTTP and the platform\<close>

record BrowserIamConfig =
  serverUrl :: string
  clientId :: string
  redirectUri :: string
  scope :: "string option"

text \<open>
  The JSON documents the client reads. \<^verbatim>\<open>(await res.json()) as T\<close> checks nothing, so
  a field of the discovery document that the server left out is \<^verbatim>\<open>undefined\<close>, here
  \<open>None\<close>. \<^verbatim>\<open>TokenResponse\<close> follows its declaration: \<^verbatim>\<open>access_token\<close> is required, the
  other three fields are optional.
\<close>

record OidcDiscovery =
  authorization_endpoint :: "string option"
  token_endpoint :: "string option"
  userinfo_endpoint :: "string option"

record TokenResponse =
  access_token :: string
  refresh_token :: "string option"
  id_token :: "string option"
  expires_in :: "int option"

text \<open>
  A request as given to \<^verbatim>\<open>fetch\<close>: the URL argument (\<open>None\<close> when the discovery
  document has no such endpoint), the method, the headers, and the form fields of the
  \<^verbatim>\<open>URLSearchParams\<close> body before serialisation.
\<close>

record request =
  req_url :: "string option"
  req_method :: string
  req_headers :: "(string \<times> string) list"
  req_body :: "(string \<times> string) list"

text \<open>
  A response: the status, \<^verbatim>\<open>res.text()\<close> (\<open>None\<close> when it rejects) and \<^verbatim>\<open>res.json()\<close>
  (\<open>None\<close> when the body is not JSON and it rejects). \<^verbatim>\<open>res.ok\<close> is a status in
  200..299. \<^verbatim>\<open>fetch\<close> itself rejects on a network failure.
\<close>

record 'a response =
  res_status :: nat
  res_text :: "string option"
  res_json :: "'a option"

definition res_ok :: "'a response \<Rightarrow> bool" where
  "res_ok res = (200 \<le> res_status res \<and> res_status res \<le> 299)"

datatype 'a fetch_result = NetworkError | Response "'a response"

text \<open>
  Everything outside the client: the URL parser (\<^verbatim>\<open>new URL(s).searchParams\<close> as a list of
  pairs, \<open>None\<close> when the constructor throws), the identity server as seen through
  \<^verbatim>\<open>fetch\<close> (its answer may depend on the requests sent before), the milliseconds a
  fetch takes, \<^verbatim>\<open>window.location.href\<close> and the SHA-256 primitive.
\<close>

record platform =
  parseURL :: "string \<Rightarrow> (string \<times> string) list option"
  fetchDiscovery :: "request list \<Rightarrow> request \<Rightarrow> OidcDiscovery fetch_result"
  fetchToken :: "request list \<Rightarrow> request \<Rightarrow> TokenResponse fetch_result"
  latency :: "request list \<Rightarrow> request \<Rightarrow> nat"
  location_href :: string
  digest :: "byte list \<Rightarrow> byte list"

datatype error =
    InvalidURL
  | FetchRejected
  | JsonRejected
  | DiscoveryFailed nat
  | OAuthError string
  | MissingCode
  | StateMismatch
  | MissingVerifier
  | TokenExchangeFailed nat string
  | NoRefreshToken
  | TokenRefreshFailed nat string

text \<open>
  The state of one \<^verbatim>\<open>BrowserIamSdk\<close> and its browser: the storage, the discovery
  cache, the clock (\<^verbatim>\<open>Date.now()\<close>), the hidden iframe of a silent sign-in while it is
  attached (its \<^verbatim>\<open>src\<close> as endpoint and query parameters), and a record of every request
  sent, each with the storage as it was when the request left.
\<close>

record world =
  storage :: storage
  discoveryCache :: "OidcDiscovery option"
  clock :: int
  iframe :: "(string \<times> (string \<times> string) list) option"
  sent :: "(request \<times> storage) list"

definition requests :: "world \<Rightarrow> request list" where
  "requests w = map fst (sent w)"

definition send :: "platform \<Rightarrow> request \<Rightarrow> world \<Rightarrow> world" where
  "send p req w =
     w\<lparr>clock := clock w + int (latency p (requests w) req),
       sent := sent w @ [(req, storage w)]\<rparr>"

text \<open>\<^verbatim>\<open>URLSearchParams.get\<close>: the first value of the name, or \<^verbatim>\<open>null\<close>.\<close>

definition searchParams_get :: "(string \<times> string) list \<Rightarrow> string \<Rightarrow> string option" where
  "searchParams_get params name = map_of params name"

text \<open>
  \<^verbatim>\<open>URLSearchParams.set\<close>: the first pair of that name takes the value and the later ones
  go; without such a pair, one is appended.
\<close>

fun searchParams_set :: "string \<Rightarrow> string \<Rightarrow> (string \<times> string) list \<Rightarrow> (string \<times> string) list" where
  "searchParams_set name v [] = [(name, v)]"
| "searchParams_set name v ((k, x) # ps) =
     (if k = name then (name, v) # filter (\<lambda>kv. fst kv \<noteq> name) ps
      else (k, x) # searchParams_set name v ps)"

text \<open>\<^verbatim>\<open>s.replace(/\/+$/, "")\<close>.\<close>

definition stripTrailingSlashes :: "string \<Rightarrow> string" where
  "stripTrailingSlashes s = rev (dropWhile (\<lambda>c. c = CHR ''/'') (rev s))"

subsection \<open>OIDC discovery\<close>

text \<open>
  An \<^verbatim>\<open>async\<close> method returns the error it rejects with (\<open>Inl\<close>) or its value
  (\<open>Inr\<close>), and the world it leaves.
\<close>

definition discoveryRequest :: "BrowserIamConfig \<Rightarrow> request" where
  "discoveryRequest cfg =
     (let baseUrl = stripTrailingSlashes (serverUrl cfg)
      in \<lparr>req_url = Some (baseUrl @ ''/.well-known/openid-configuration''),
          req_method = ''GET'',
          req_headers = [(''Accept'', ''application/json'')],
          req_body = []\<rparr>)"

definition getDiscovery ::
  "platform \<Rightarrow> BrowserIamConfig \<Rightarrow> world \<Rightarrow> (error + OidcDiscovery) \<times> world" where
  "getDiscovery p cfg w =
     (case discoveryCache w of
        Some d \<Rightarrow> (Inr d, w)
      | None \<Rightarrow>
          (let req = discoveryRequest cfg;
               w1 = send p req w
           in case fetchDiscovery p (requests w) req of
                NetworkError \<Rightarrow> (Inl FetchRejected, w1)
              | Response res \<Rightarrow>
                  if \<not> res_ok res then (Inl (DiscoveryFailed (res_status res)), w1)
                  else (case res_json res of
                          None \<Rightarrow> (Inl JsonRejected, w1)
                        | Some d \<Rightarrow> (Inr d, w1\<lparr>discoveryCache := Some d\<rparr>))))"

subsection \<open>Token management\<close>

text \<open>\<^verbatim>\<open>storeTokens\<close>; \<open>now\<close> is what \<^verbatim>\<open>Date.now()\<close> returns during the call.\<close>

definition storeTokens :: "int \<Rightarrow> TokenResponse \<Rightarrow> storage \<Rightarrow> storage" where
  "storeTokens now tokens s =
     (let s1 = setItem s KEY_ACCESS_TOKEN (access_token tokens);
          s2 = (case refresh_token tokens of
                  None \<Rightarrow> s1
                | Some r \<Rightarrow> if r \<noteq> [] then setItem s1 KEY_REFRESH_TOKEN r else s1);
          s3 = (case id_token tokens of
                  None \<Rightarrow> s2
                | Some i \<Rightarrow> if i \<noteq> [] then setItem s2 KEY_ID_TOKEN i else s2)
      in case expires_in tokens of
           None \<Rightarrow> s3
         | Some n \<Rightarrow>
             if n \<noteq> 0
             then (let expiresAt = now + n * 1000
                   in setItem s3 KEY_EXPIRES_AT (String_of_number expiresAt))
             else s3)"

definition getAccessToken :: "storage \<Rightarrow> string option" where
  "getAccessToken s = getItem s KEY_ACCESS_TOKEN"

definition getRefreshToken :: "storage \<Rightarrow> string option" where
  "getRefreshToken s = getItem s KEY_REFRESH_TOKEN"

definition getIdToken :: "storage \<Rightarrow> string option" where
  "getIdToken s = getItem s KEY_ID_TOKEN"

text \<open>
  \<^verbatim>\<open>isTokenExpired\<close>: a comparison with \<^verbatim>\<open>NaN\<close> is false.
\<close>

definition isTokenExpired :: "int \<Rightarrow> storage \<Rightarrow> bool" where
  "isTokenExpired now s =
     (let expiresAt = getItem s KEY_EXPIRES_AT
      in if \<not> truthy expiresAt then True
         else (case expiresAt of
                 None \<Rightarrow> True
               | Some e \<Rightarrow> (case Number_of_string e of None \<Rightarrow> False | Some n \<Rightarrow> now \<ge> n)))"

definition clearTokens :: "storage \<Rightarrow> storage" where
  "clearTokens s =
     removeItem (removeItem (removeItem (removeItem (removeItem (removeItem s
       KEY_ACCESS_TOKEN) KEY_REFRESH_TOKEN) KEY_ID_TOKEN) KEY_EXPIRES_AT) KEY_STATE)
       KEY_CODE_VERIFIER"

subsection \<open>Callback handling\<close>

text \<open>The token-endpoint POST that both grants share.\<close>

definition tokenRequest :: "OidcDiscovery \<Rightarrow> (string \<times> string) list \<Rightarrow> request" where
  "tokenRequest discovery body =
     \<lparr>req_url = token_endpoint discovery,
      req_method = ''POST'',
      req_headers = [(''Content-Type'', ''application/x-www-form-urlencoded'')],
      req_body = body\<rparr>"

text \<open>\<^verbatim>\<open>await res.text().catch(() => "")\<close>.\<close>

definition textOrEmpty :: "'a response \<Rightarrow> string" where
  "textOrEmpty res = (case res_text res of None \<Rightarrow> [] | Some t \<Rightarrow> t)"

text \<open>
  The second half of \<^verbatim>\<open>handleCallback\<close>, from \<^verbatim>\<open>await this.getDiscovery()\<close> on: the
  exchange of the code at the token endpoint. It runs in the world \<open>w1\<close> that the
  validation half leaves.
\<close>

definition exchangeCode ::
  "platform \<Rightarrow> BrowserIamConfig \<Rightarrow> string \<Rightarrow> string \<Rightarrow> world \<Rightarrow> (error + TokenResponse) \<times> world" where
  "exchangeCode p cfg code verifier w1 =
     (case getDiscovery p cfg w1 of
        (Inl e, w2) \<Rightarrow> (Inl e, w2)
      | (Inr discovery, w2) \<Rightarrow>
          (let req = tokenRequest discovery
                       [(''grant_type'', ''authorization_code''),
                        (''client_id'', clientId cfg),
                        (''code'', code),
                        (''redirect_uri'', redirectUri cfg),
                        (''code_verifier'', verifier)];
               w3 = send p req w2
           in case fetchToken p (requests w2) req of
                NetworkError \<Rightarrow> (Inl FetchRejected, w3)
              | Response res \<Rightarrow>
                  if \<not> res_ok res
                  then (Inl (TokenExchangeFailed (res_status res) (textOrEmpty res)), w3)
                  else (case res_json res of
                          None \<Rightarrow> (Inl JsonRejected, w3)
                        | Some tokens \<Rightarrow>
                            (Inr tokens,
                             w3\<lparr>storage := storeTokens (clock w3) tokens (storage w3)\<rparr>))))"

text \<open>
  \<^verbatim>\<open>handleCallback(callbackUrl?)\<close>: the checks in the order of the source (provider
  error, missing code, state, verifier), then the removal of the one-time state, then the
  exchange.
\<close>

definition handleCallback ::
  "platform \<Rightarrow> BrowserIamConfig \<Rightarrow> string option \<Rightarrow> world \<Rightarrow> (error + TokenResponse) \<times> world" where
  "handleCallback p cfg callbackUrl w =
     (case parseURL p (case callbackUrl of None \<Rightarrow> location_href p | Some u \<Rightarrow> u) of
        None \<Rightarrow> (Inl InvalidURL, w)
      | Some params \<Rightarrow>
          (let code = searchParams_get params ''code'';
               state = searchParams_get params ''state'';
               err = searchParams_get params ''error''
           in case (if truthy err then err else None) of
                Some e \<Rightarrow>
                  (let desc = (case searchParams_get params ''error_description'' of
                                 None \<Rightarrow> e
                               | Some d \<Rightarrow> d)
                   in (Inl (OAuthError desc), w))
              | None \<Rightarrow>
                  (case (if truthy code then code else None) of
                     None \<Rightarrow> (Inl MissingCode, w)
                   | Some code' \<Rightarrow>
                       (let savedState = getItem (storage w) KEY_STATE
                        in if \<not> truthy savedState \<or> savedState \<noteq> state
                           then (Inl StateMismatch, w)
                           else
                             (let codeVerifier = getItem (storage w) KEY_CODE_VERIFIER
                              in case (if truthy codeVerifier then codeVerifier else None) of
                                   None \<Rightarrow> (Inl MissingVerifier, w)
                                 | Some codeVerifier' \<Rightarrow>
                                     exchangeCode p cfg code' codeVerifier'
                                       (w\<lparr>storage :=
                                            removeItem (removeItem (storage w) KEY_STATE)
                                              KEY_CODE_VERIFIER\<rparr>))))))"

subsection \<open>Token refresh\<close>

definition refreshAccessToken ::
  "platform \<Rightarrow> BrowserIamConfig \<Rightarrow> world \<Rightarrow> (error + TokenResponse) \<times> world" where
  "refreshAccessToken p cfg w =
     (let refreshToken = getItem (storage w) KEY_REFRESH_TOKEN
      in case (if truthy refreshToken then refreshToken else None) of
           None \<Rightarrow> (Inl NoRefreshToken, w)
         | Some refreshToken' \<Rightarrow>
             (case getDiscovery p cfg w of
                (Inl e, w1) \<Rightarrow> (Inl e, w1)
              | (Inr discovery, w1) \<Rightarrow>
                  (let req = tokenRequest discovery
                               [(''grant_type'', ''refresh_token''),
                                (''client_id'', clientId cfg),
                                (''refresh_token'', refreshToken')];
                       w2 = send p req w1
                   in case fetchToken p (requests w1) req of
                        NetworkError \<Rightarrow> (Inl FetchRejected, w2)
                      | Response res \<Rightarrow>
                          if \<not> res_ok res
                          then (Inl (TokenRefreshFailed (res_status res) (textOrEmpty res)), w2)
                          else (case res_json res of
                                  None \<Rightarrow> (Inl JsonRejected, w2)
                                | Some tokens \<Rightarrow>
                                    (Inr tokens,
                                     w2\<lparr>storage :=
                                          storeTokens (clock w2) tokens (storage w2)\<rparr>)))))"


subsection \<open>Silent sign-in\<close>

text \<open>
  What can happen to the hidden iframe while the promise is pending: a load event whose
  \<^verbatim>\<open>iframe.contentWindow?.location.href\<close> is readable (\<open>None\<close> when it is
  \<^verbatim>\<open>undefined\<close>), a load event where reading it throws (cross-origin), or the timer
  firing. The events come in the order of the list.
\<close>

datatype iframe_event = Load "string option" | LoadCrossOrigin | TimerFired

datatype 'a promise = Pending | Resolved 'a | Rejected error

definition cleanup :: "world \<Rightarrow> world" where
  "cleanup w =
     w\<lparr>iframe := None,
       storage := removeItem (removeItem (storage w) KEY_STATE) KEY_CODE_VERIFIER\<rparr>"

fun silentEvents ::
  "platform \<Rightarrow> BrowserIamConfig \<Rightarrow> iframe_event list \<Rightarrow> world
     \<Rightarrow> TokenResponse option promise \<times> world" where
  "silentEvents p cfg [] w = (Pending, w)"
| "silentEvents p cfg (TimerFired # evs) w = (Resolved None, cleanup w)"
| "silentEvents p cfg (LoadCrossOrigin # evs) w = (Resolved None, cleanup w)"
| "silentEvents p cfg (Load iframeUrl # evs) w =
     (case (if truthy iframeUrl then iframeUrl else None) of
        None \<Rightarrow> silentEvents p cfg evs w
      | Some u \<Rightarrow>
          if prefix (redirectUri cfg) u
          then (case handleCallback p cfg (Some u) (cleanup w) of
                  (Inr tokens, w') \<Rightarrow> (Resolved (Some tokens), w')
                | (Inl e, w') \<Rightarrow> (Resolved None, w'))
          else silentEvents p cfg evs w)"

text \<open>
  \<^verbatim>\<open>signinSilent\<close>. \<open>verifierBytes\<close> and \<open>stateBytes\<close> are what
  \<^verbatim>\<open>crypto.getRandomValues\<close> delivers for the verifier and for the state.
\<close>

definition signinSilent ::
  "platform \<Rightarrow> BrowserIamConfig \<Rightarrow> byte list \<Rightarrow> byte list \<Rightarrow> iframe_event list \<Rightarrow> world
     \<Rightarrow> TokenResponse option promise \<times> world" where
  "signinSilent p cfg verifierBytes stateBytes evs w =
     (case getDiscovery p cfg w of
        (Inl e, w1) \<Rightarrow> (Rejected e, w1)
      | (Inr discovery, w1) \<Rightarrow>
          (let pkce = generatePkceChallenge (digest p) verifierBytes;
               state = generateState stateBytes;
               w2 = w1\<lparr>storage := setItem (setItem (storage w1) KEY_STATE state)
                                     KEY_CODE_VERIFIER (codeVerifier pkce)\<rparr>
           in case authorization_endpoint discovery of
                None \<Rightarrow> (Rejected InvalidURL, w2)
              | Some endpoint \<Rightarrow>
                  (case parseURL p endpoint of
                     None \<Rightarrow> (Rejected InvalidURL, w2)
                   | Some params \<Rightarrow>
                       (let params' =
                              searchParams_set ''prompt'' ''none''
                              (searchParams_set ''code_challenge_method'' ''S256''
                              (searchParams_set ''code_challenge'' (codeChallenge pkce)
                              (searchParams_set ''state'' state
                              (searchParams_set ''scope''
                                 (case scope cfg of None \<Rightarrow> ''openid profile email'' | Some sc \<Rightarrow> sc)
                              (searchParams_set ''redirect_uri'' (redirectUri cfg)
                              (searchParams_set ''response_type'' ''code''
                              (searchParams_set ''client_id'' (clientId cfg) params)))))));
                            w3 = w2\<lparr>iframe := Some (endpoint, params')\<rparr>
                        in silentEvents p cfg evs w3))))"

section \<open>An example deployment\<close>

text \<open>
  A concrete configuration, server and browser, at which the theorems below are
  instantiated. The URL parser is a table of the URLs that occur; the digest is a
  stand-in, since no theorem depends on which function it is.
\<close>

definition example_config :: BrowserIamConfig where
  "example_config =
     \<lparr>serverUrl = ''https://iam.example/'', clientId = ''my-app'',
      redirectUri = ''https://app/cb'', scope = None\<rparr>"

definition example_discovery :: OidcDiscovery where
  "example_discovery =
     \<lparr>authorization_endpoint = Some ''https://iam.example/authorize'',
      token_endpoint = Some ''https://iam.example/token'',
      userinfo_endpoint = Some ''https://iam.example/userinfo''\<rparr>"


definition example_tokens :: TokenResponse where
  "example_tokens =
     \<lparr>access_token = ''AT2'', refresh_token = Some ''RT2'', id_token = None,
      expires_in = Some 3600\<rparr>"

definition bare_tokens :: TokenResponse where
  "bare_tokens =
     \<lparr>access_token = ''AT3'', refresh_token = None, id_token = None, expires_in = None\<rparr>"

definition example_verifier_bytes :: "byte list" where
  "example_verifier_bytes = replicate 64 0"

definition example_state_bytes :: "byte list" where
  "example_state_bytes = replicate 32 0"

definition example_state :: string where
  "example_state = ''00000000000000000000000000000000''"

definition callback_ok :: string where
  "callback_ok = ''https://app/cb?code=abc&state=00000000000000000000000000000000''"

definition callback_forged :: string where
  "callback_forged = ''https://app/cb?code=abc&state=forged''"

definition callback_error :: string where
  "callback_error = ''https://app/cb?error=access_denied&state=forged''"

definition callback_no_code :: string where
  "callback_no_code = ''https://app/cb?state=00000000000000000000000000000000''"

definition example_parseURL :: "string \<Rightarrow> (string \<times> string) list option" where
  "example_parseURL =
     map_of
       [(''https://iam.example/authorize'', []),
        (callback_ok, [(''code'', ''abc''), (''state'', example_state)]),
        (callback_forged, [(''code'', ''abc''), (''state'', ''forged'')]),
        (callback_error, [(''error'', ''access_denied''), (''state'', ''forged'')]),
        (callback_no_code, [(''state'', example_state)])]"

definition example_digest :: "byte list \<Rightarrow> byte list" where
  "example_digest bytes = bytes"

definition example_platform ::
  "OidcDiscovery fetch_result \<Rightarrow> TokenResponse fetch_result \<Rightarrow> platform" where
  "example_platform d t =
     \<lparr>parseURL = example_parseURL,
      fetchDiscovery = (\<lambda>history req. d),
      fetchToken = (\<lambda>history req. t),
      latency = (\<lambda>history req. 25),
      location_href = ''https://app/'',
      digest = example_digest\<rparr>"

definition ok_response :: "'a \<Rightarrow> 'a fetch_result" where
  "ok_response body = Response \<lparr>res_status = 200, res_text = None, res_json = Some body\<rparr>"

definition error_response :: "nat \<Rightarrow> 'a fetch_result" where
  "error_response code =
     Response \<lparr>res_status = code, res_text = Some ''denied'', res_json = None\<rparr>"


definition example_world :: "storage \<Rightarrow> world" where
  "example_world s =
     \<lparr>storage = s, discoveryCache = None, clock = 1700000000000, iframe = None, sent = []\<rparr>"

definition pending_storage :: storage where
  "pending_storage = [KEY_STATE \<mapsto> example_state, KEY_CODE_VERIFIER \<mapsto> ''verifier'']"

definition fresh_storage :: storage where
  "fresh_storage = [KEY_ACCESS_TOKEN \<mapsto> ''AT1'', KEY_EXPIRES_AT \<mapsto> ''1700003600000'']"

definition session_storage :: storage where
  "session_storage =
     [KEY_ACCESS_TOKEN \<mapsto> ''AT1'', KEY_REFRESH_TOKEN \<mapsto> ''RT1'', KEY_ID_TOKEN \<mapsto> ''ID1'',
      KEY_EXPIRES_AT \<mapsto> ''1000'']"

section \<open>Proof tools\<close>

text \<open>The two character replacements of \<^const>\<open>base64UrlEncode\<close> as one map.\<close>

definition urlsafe :: "char \<Rightarrow> char" where
  "urlsafe c =
     (let d = (if c = CHR ''+'' then CHR ''-'' else c) in if d = CHR ''/'' then CHR ''_'' else d)"

section \<open>Properties of the PKCE utilities\<close>

subsection \<open>Random strings\<close>

lemma unat_byte_lt: "unat (b :: byte) < 256"
  using unsigned_less [of b] by simp

lemma toString36_small: "n < 36 \<Longrightarrow> toString36 n = [digit36 n]"
  by (simp add: toString36.simps)

lemma byteToBase36_eq:
  "byteToBase36 b = [digit36 (unat b div 36), digit36 (unat b mod 36)]"
proof (cases "unat b < 36")
  case True
  then show ?thesis
    by (simp add: byteToBase36_def padStart_def toString36_small digit36_def digits36_def)
next
  case False
  have "unat b div 36 < 36" using unat_byte_lt [of b] by simp
  then have "toString36 (unat b) = [digit36 (unat b div 36), digit36 (unat b mod 36)]"
    using False by (subst toString36.simps) (simp add: toString36_small)
  then show ?thesis by (simp add: byteToBase36_def padStart_def)
qed

lemma distinct_digits36: "distinct digits36"
  by (simp add: digits36_def)

lemma length_digits36: "length digits36 = 36"
  by (simp add: digits36_def)

lemma digit36_inj: "a < 36 \<Longrightarrow> b < 36 \<Longrightarrow> digit36 a = digit36 b \<Longrightarrow> a = b"
  using distinct_digits36 by (simp add: digit36_def nth_eq_iff_index_eq length_digits36)

lemma byteToBase36_inj: "byteToBase36 a = byteToBase36 b \<Longrightarrow> a = b"
proof -
  assume h: "byteToBase36 a = byteToBase36 b"
  have d: "digit36 (unat a div 36) = digit36 (unat b div 36)"
    and m: "digit36 (unat a mod 36) = digit36 (unat b mod 36)"
    using h by (simp_all add: byteToBase36_eq)
  have "unat a div 36 < 36" "unat b div 36 < 36"
    using unat_byte_lt [of a] unat_byte_lt [of b] by simp_all
  then have d': "unat a div 36 = unat b div 36" using d by (rule digit36_inj)
  have "unat a mod 36 = unat b mod 36" using m by (intro digit36_inj) simp_all
  with d' have "unat a = unat b" by (metis div_mult_mod_eq)
  then show ?thesis by (simp add: word_unat_eq_iff)
qed

lemma length_byteToBase36: "length (byteToBase36 b) = 2"
  by (simp add: byteToBase36_eq)

lemma take_concat_base36:
  "take (2 * k) (concat (map byteToBase36 xs)) = concat (map byteToBase36 (take k xs))"
proof (induction xs arbitrary: k)
  case Nil
  then show ?case by simp
next
  case (Cons x xs)
  show ?case
  proof (cases k)
    case 0
    then show ?thesis by simp
  next
    case (Suc j)
    then show ?thesis using Cons.IH [of j] by (simp add: length_byteToBase36)
  qed
qed

lemma concat_base36_inj:
  "length xs = length ys \<Longrightarrow> concat (map byteToBase36 xs) = concat (map byteToBase36 ys) \<Longrightarrow> xs = ys"
proof (induction xs ys rule: list_induct2)
  case Nil
  then show ?case by simp
next
  case (Cons x xs y ys)
  from Cons.prems have "byteToBase36 x = byteToBase36 y \<and> concat (map byteToBase36 xs) = concat (map byteToBase36 ys)"
    by (simp add: length_byteToBase36)
  then show ?case using Cons.IH byteToBase36_inj by blast
qed

lemma generateRandomString_even:
  "generateRandomString (2 * k) array = concat (map byteToBase36 (take k array))"
  by (simp add: generateRandomString_def take_concat_base36)

lemma length_generateRandomString:
  "len \<le> length array \<Longrightarrow> length (generateRandomString len array) = len"
  by (simp add: generateRandomString_def length_concat comp_def length_byteToBase36 sum_list_triv)

lemma generateRandomString_eq_iff:
  assumes "k \<le> length a" "k \<le> length b"
  shows "generateRandomString (2 * k) a = generateRandomString (2 * k) b \<longleftrightarrow> take k a = take k b"
proof
  assume "generateRandomString (2 * k) a = generateRandomString (2 * k) b"
  then have "concat (map byteToBase36 (take k a)) = concat (map byteToBase36 (take k b))"
    by (simp add: generateRandomString_even)
  moreover have "length (take k a) = length (take k b)" using assms by simp
  ultimately show "take k a = take k b" by (rule concat_base36_inj [rotated])
next
  assume "take k a = take k b"
  then show "generateRandomString (2 * k) a = generateRandomString (2 * k) b"
    by (simp add: generateRandomString_even)
qed

lemma generateRandomString_chars: "set (generateRandomString len array) \<subseteq> set digits36"
proof -
  have "set (byteToBase36 b) \<subseteq> set digits36" for b
  proof -
    have "unat b div 36 < 36" using unat_byte_lt [of b] by simp
    then show ?thesis
      by (simp add: byteToBase36_eq digit36_def length_digits36)
  qed
  then have "set (concat (map byteToBase36 array)) \<subseteq> set digits36" by auto
  then show ?thesis
    unfolding generateRandomString_def using set_take_subset by fast
qed

subsection \<open>The base64url encoding\<close>

lemma replaceAll_urlsafe:
  "replaceAll (CHR ''/'') (CHR ''_'') (replaceAll (CHR ''+'') (CHR ''-'') s) = map urlsafe s"
  by (simp add: replaceAll_def urlsafe_def Let_def)

lemma alphabets_related:
  "list_all2 (\<lambda>a b. urlsafe a = b \<and> b \<noteq> CHR ''='') base64_alphabet base64url_alphabet"
  by (simp add: base64_alphabet_def base64url_alphabet_def urlsafe_def)

lemma length_base64_alphabet: "length base64_alphabet = 64"
  by (simp add: base64_alphabet_def)

lemma urlsafe_nth: "n < 64 \<Longrightarrow> urlsafe (base64_alphabet ! n) = base64url_alphabet ! n"
  using list_all2_nthD [OF alphabets_related, of n] by (simp add: length_base64_alphabet)

lemma url_nth_not_eq: "n < 64 \<Longrightarrow> base64url_alphabet ! n \<noteq> CHR ''=''"
  using list_all2_nthD [OF alphabets_related, of n] by (simp add: length_base64_alphabet)

lemma urlsafe_eq: "urlsafe (CHR ''='') = CHR ''=''"
  by (simp add: urlsafe_def)

lemma sextet1: "unat (a :: byte) div 4 < 64"
  using unat_byte_lt [of a] by simp

lemma sextet2: "unat (a :: byte) mod 4 * 16 + unat (b :: byte) div 16 < 64"
  using unat_byte_lt [of b] by simp

lemma sextet2': "unat (a :: byte) mod 4 * 16 < 64"
  by simp

lemma sextet3: "unat (b :: byte) mod 16 * 4 + unat (c :: byte) div 64 < 64"
  using unat_byte_lt [of c] by simp

lemma sextet3': "unat (b :: byte) mod 16 * 4 < 64"
  by simp

lemma sextet4: "unat (c :: byte) mod 64 < 64"
  by simp

lemmas sextets = sextet1 sextet2 sextet2' sextet3 sextet3' sextet4

lemma of_char_byte: "unat (b :: byte) mod 256 = unat b"
  using unat_byte_lt [of b] by simp

lemma btoa_urlsafe:
  "\<exists>k. map urlsafe (btoa (map (\<lambda>byte. char_of (unat byte)) bs)) = base64url_unpadded bs @ replicate k (CHR ''='')"
proof (induction bs rule: base64url_unpadded.induct)
  case 1
  show ?case by simp
next
  case (2 a)
  have "map urlsafe (btoa (map (\<lambda>byte. char_of (unat byte)) [a])) = base64url_unpadded [a] @ replicate 2 (CHR ''='')"
    by (simp add: of_char_byte urlsafe_nth urlsafe_eq numeral_2_eq_2 Let_def sextets)
  then show ?case by blast
next
  case (3 a b)
  have "map urlsafe (btoa (map (\<lambda>byte. char_of (unat byte)) [a, b])) = base64url_unpadded [a, b] @ replicate 1 (CHR ''='')"
    by (simp add: of_char_byte urlsafe_nth urlsafe_eq Let_def sextets)
  then show ?case by blast
next
  case (4 a b c rest)
  then obtain k where k: "map urlsafe (btoa (map (\<lambda>byte. char_of (unat byte)) rest)) = base64url_unpadded rest @ replicate k (CHR ''='')"
    by blast
  have "map urlsafe (btoa (map (\<lambda>byte. char_of (unat byte)) (a # b # c # rest))) = base64url_unpadded (a # b # c # rest) @ replicate k (CHR ''='')"
    using k by (simp add: of_char_byte urlsafe_nth Let_def sextets)
  then show ?case by blast
qed

lemma base64url_unpadded_no_padding: "CHR ''='' \<notin> set (base64url_unpadded bs)"
  by (induction bs rule: base64url_unpadded.induct)
    (simp_all add: url_nth_not_eq [THEN not_sym] sextets)

lemma stripTrailingEquals_padding:
  "CHR ''='' \<notin> set s \<Longrightarrow> stripTrailingEquals (s @ replicate k (CHR ''='')) = s"
proof -
  assume h: "CHR ''='' \<notin> set s"
  have "dropWhile (\<lambda>c. c = CHR ''='') (replicate k (CHR ''='') @ rev s) = dropWhile (\<lambda>c. c = CHR ''='') (rev s)"
    by (rule dropWhile_append2) simp
  also have "\<dots> = rev s"
  proof (cases "rev s")
    case Nil
    then show ?thesis by simp
  next
    case (Cons x xs)
    then have "x \<in> set s" by (metis list.set_intros(1) set_rev)
    with h have "x \<noteq> CHR ''=''" by auto
    with Cons show ?thesis by simp
  qed
  finally show ?thesis by (simp add: stripTrailingEquals_def)
qed

lemma base64UrlEncode_eq: "base64UrlEncode bs = base64url_unpadded bs"
proof -
  obtain k where "map urlsafe (btoa (map (\<lambda>byte. char_of (unat byte)) bs)) = base64url_unpadded bs @ replicate k (CHR ''='')"
    using btoa_urlsafe by blast
  then show ?thesis
    by (simp add: base64UrlEncode_def replaceAll_urlsafe stripTrailingEquals_padding base64url_unpadded_no_padding)
qed

subsection \<open>The claims about the challenge generator\<close>

text \<open>
  C6. For every pair that \<^verbatim>\<open>generatePkceChallenge\<close> produces from its 64 random bytes,
  the code challenge is the URL-safe, unpadded base64 encoding of the digest of the
  UTF-8 bytes of the code verifier, and the verifier is a string of 64 characters
  (between 43 and 128), all of them digits or lower-case letters.
\<close>

theorem generatePkceChallenge_S256:
  assumes "length array = 64"
  shows "codeChallenge (generatePkceChallenge dg array)
           = base64url_unpadded
               (dg (TextEncoder_encode (codeVerifier (generatePkceChallenge dg array))))
       \<and> length (codeVerifier (generatePkceChallenge dg array)) = 64
       \<and> 43 \<le> length (codeVerifier (generatePkceChallenge dg array))
       \<and> length (codeVerifier (generatePkceChallenge dg array)) \<le> 128
       \<and> set (codeVerifier (generatePkceChallenge dg array)) \<subseteq> set digits36"
proof -
  have v: "codeVerifier (generatePkceChallenge dg array) = generateRandomString 64 array"
    by (simp add: generatePkceChallenge_def Let_def)
  have c: "codeChallenge (generatePkceChallenge dg array)
             = base64url_unpadded (dg (TextEncoder_encode (generateRandomString 64 array)))"
    by (simp add: generatePkceChallenge_def Let_def sha256_def base64UrlEncode_eq)
  have l: "length (generateRandomString 64 array) = 64"
    using assms by (simp add: length_generateRandomString)
  show ?thesis
    using c l generateRandomString_chars [of 64 array] by (simp add: v)
qed

theorem generatePkceChallenge_S256_witness:
  "length example_verifier_bytes = 64
   \<and> codeChallenge (generatePkceChallenge example_digest example_verifier_bytes)
       = base64url_unpadded
           (example_digest
              (TextEncoder_encode
                 (codeVerifier (generatePkceChallenge example_digest example_verifier_bytes))))
   \<and> length (codeVerifier (generatePkceChallenge example_digest example_verifier_bytes)) = 64"
proof -
  have h: "length example_verifier_bytes = 64"
    by (simp add: example_verifier_bytes_def)
  show ?thesis
    using h generatePkceChallenge_S256 [OF h, of example_digest] by simp
qed

text \<open>
  C9, as stated, fails for the state: \<^verbatim>\<open>generateState\<close> draws 32 random bytes, but two
  arrays that differ only in the last byte give the same state.
\<close>

theorem generateState_entropy_counterexample:
  "length (replicate 32 (0 :: byte)) = 32
   \<and> length (replicate 31 (0 :: byte) @ [1]) = 32
   \<and> replicate 32 (0 :: byte) \<noteq> replicate 31 0 @ [1]
   \<and> generateState (replicate 32 0) = generateState (replicate 31 0 @ [1])"
proof -
  have "take 16 (replicate 32 (0 :: byte)) = take 16 (replicate 31 0 @ [1])"
    by simp
  then have "generateRandomString (2 * 16) (replicate 32 0)
      = generateRandomString (2 * 16) (replicate 31 0 @ [1])"
    by (subst generateRandomString_eq_iff) simp_all
  moreover have "replicate 32 (0 :: byte) \<noteq> replicate 31 0 @ [1]"
  proof
    assume "replicate 32 (0 :: byte) = replicate 31 0 @ [1]"
    then have "last (replicate 32 (0 :: byte)) = last (replicate 31 0 @ [1])" by simp
    then show False by simp
  qed
  ultimately show ?thesis by (simp add: generateState_def)
qed

text \<open>
  C9, amended. The verifier depends on exactly the first 32 of its 64 random bytes and
  is an injective function of them (256 bits); the state depends on exactly the first
  16 of its 32 random bytes and is an injective function of them (128 bits). The bytes
  after those are cut off by the slice.
\<close>

theorem random_values_entropy:
  assumes "length a = 64" "length b = 64" "length c = 32" "length d = 32"
  shows "(codeVerifier (generatePkceChallenge dg a) = codeVerifier (generatePkceChallenge dg b)
            \<longleftrightarrow> take 32 a = take 32 b)
       \<and> (generateState c = generateState d \<longleftrightarrow> take 16 c = take 16 d)"
proof -
  have "generateRandomString (2 * 32) a = generateRandomString (2 * 32) b
          \<longleftrightarrow> take 32 a = take 32 b"
    using assms by (intro generateRandomString_eq_iff) simp_all
  moreover have "generateRandomString (2 * 16) c = generateRandomString (2 * 16) d
          \<longleftrightarrow> take 16 c = take 16 d"
    using assms by (intro generateRandomString_eq_iff) simp_all
  ultimately show ?thesis
    by (simp add: generatePkceChallenge_def Let_def generateState_def)
qed

theorem random_values_entropy_witness:
  "length example_verifier_bytes = 64 \<and> length (replicate 63 (0 :: byte) @ [7]) = 64
   \<and> length example_state_bytes = 32 \<and> length (1 # replicate 31 (0 :: byte)) = 32
   \<and> codeVerifier (generatePkceChallenge example_digest example_verifier_bytes)
       = codeVerifier (generatePkceChallenge example_digest (replicate 63 0 @ [7]))
   \<and> generateState example_state_bytes \<noteq> generateState (1 # replicate 31 0)"
proof -
  have h: "length example_verifier_bytes = 64" "length (replicate 63 (0 :: byte) @ [7]) = 64"
    "length example_state_bytes = 32" "length (1 # replicate 31 (0 :: byte)) = 32"
    by (simp_all add: example_verifier_bytes_def example_state_bytes_def)
  have t: "take 32 example_verifier_bytes = take 32 (replicate 63 (0 :: byte) @ [7])"
    by (simp add: example_verifier_bytes_def)
  have u: "take 16 example_state_bytes \<noteq> take 16 (1 # replicate 31 (0 :: byte))"
    by (simp add: example_state_bytes_def numeral_eq_Suc)
  show ?thesis
    using h t u random_values_entropy [OF h, of example_digest] by simp
qed

section \<open>Properties of the token store\<close>

subsection \<open>Decimal strings\<close>

lemma digit_value_digit36: "d < 10 \<Longrightarrow> digit_value (digit36 d) = Some d"
proof -
  assume "d < 10"
  then have "d \<in> {0, 1, 2, 3, 4, 5, 6, 7, 8, 9}" by auto
  then show ?thesis
    by (auto simp: digit_value_def digit36_def digits36_def upt_conv_Cons)
qed

lemma parse_digits_append:
  "parse_digits (xs @ ys) acc =
     (case parse_digits xs acc of None \<Rightarrow> None | Some a \<Rightarrow> parse_digits ys a)"
  by (induction xs arbitrary: acc) (auto split: option.splits)

lemma parse_digits_decimal: "parse_digits (decimal n) 0 = Some n"
proof (induction n rule: decimal.induct)
  case (1 n)
  show ?case
  proof (cases "n < 10")
    case True
    then show ?thesis
      by (subst decimal.simps) (simp add: digit_value_digit36)
  next
    case False
    then have "parse_digits (decimal (n div 10)) 0 = Some (n div 10)" by (rule "1.IH")
    then show ?thesis using False
      by (subst decimal.simps) (simp add: parse_digits_append digit_value_digit36)
  qed
qed

lemma decimal_not_Nil: "decimal n \<noteq> []"
  by (subst decimal.simps) simp

lemma decimal_hd_digit: "decimal n = c # cs \<Longrightarrow> digit_value c \<noteq> None"
  using parse_digits_decimal [of n] by (auto split: option.splits)

lemma digit_value_signs: "digit_value (CHR ''-'') = None" "digit_value (CHR ''+'') = None"
  by (simp_all add: digit_value_def upt_conv_Cons)

lemma Number_of_String: "Number_of_string (String_of_number i) = Some i"
proof (cases "i < 0")
  case True
  then show ?thesis
    by (simp add: String_of_number_def decimal_not_Nil parse_digits_decimal)
next
  case False
  obtain c cs where d: "decimal (nat i) = c # cs"
    using decimal_not_Nil [of "nat i"] by (cases "decimal (nat i)") auto
  then have "c \<noteq> CHR ''-''" "c \<noteq> CHR ''+''"
    using decimal_hd_digit [OF d] digit_value_signs by auto
  then have "Number_of_string (c # cs) = map_option int (parse_digits (c # cs) 0)" by simp
  then show ?thesis using False d parse_digits_decimal [of "nat i"]
    by (simp add: String_of_number_def)
qed

lemma String_of_number_not_Nil: "String_of_number i \<noteq> []"
  by (simp add: String_of_number_def decimal_not_Nil)

lemmas key_defs = STORAGE_PREFIX_def KEY_STATE_def KEY_CODE_VERIFIER_def KEY_ACCESS_TOKEN_def
  KEY_REFRESH_TOKEN_def KEY_ID_TOKEN_def KEY_EXPIRES_AT_def

subsection \<open>Storage keys\<close>

lemma key_neq [simp]:
  "KEY_STATE \<noteq> KEY_CODE_VERIFIER" "KEY_STATE \<noteq> KEY_ACCESS_TOKEN" "KEY_STATE \<noteq> KEY_REFRESH_TOKEN"
  "KEY_STATE \<noteq> KEY_ID_TOKEN" "KEY_STATE \<noteq> KEY_EXPIRES_AT"
  "KEY_CODE_VERIFIER \<noteq> KEY_STATE" "KEY_CODE_VERIFIER \<noteq> KEY_ACCESS_TOKEN" "KEY_CODE_VERIFIER \<noteq> KEY_REFRESH_TOKEN"
  "KEY_CODE_VERIFIER \<noteq> KEY_ID_TOKEN" "KEY_CODE_VERIFIER \<noteq> KEY_EXPIRES_AT"
  "KEY_ACCESS_TOKEN \<noteq> KEY_STATE" "KEY_ACCESS_TOKEN \<noteq> KEY_CODE_VERIFIER" "KEY_ACCESS_TOKEN \<noteq> KEY_REFRESH_TOKEN"
  "KEY_ACCESS_TOKEN \<noteq> KEY_ID_TOKEN" "KEY_ACCESS_TOKEN \<noteq> KEY_EXPIRES_AT"
  "KEY_REFRESH_TOKEN \<noteq> KEY_STATE" "KEY_REFRESH_TOKEN \<noteq> KEY_CODE_VERIFIER" "KEY_REFRESH_TOKEN \<noteq> KEY_ACCESS_TOKEN"
  "KEY_REFRESH_TOKEN \<noteq> KEY_ID_TOKEN" "KEY_REFRESH_TOKEN \<noteq> KEY_EXPIRES_AT"
  "KEY_ID_TOKEN \<noteq> KEY_STATE" "KEY_ID_TOKEN \<noteq> KEY_CODE_VERIFIER" "KEY_ID_TOKEN \<noteq> KEY_ACCESS_TOKEN"
  "KEY_ID_TOKEN \<noteq> KEY_REFRESH_TOKEN" "KEY_ID_TOKEN \<noteq> KEY_EXPIRES_AT"
  "KEY_EXPIRES_AT \<noteq> KEY_STATE" "KEY_EXPIRES_AT \<noteq> KEY_CODE_VERIFIER" "KEY_EXPIRES_AT \<noteq> KEY_ACCESS_TOKEN"
  "KEY_EXPIRES_AT \<noteq> KEY_REFRESH_TOKEN" "KEY_EXPIRES_AT \<noteq> KEY_ID_TOKEN"
  by (simp_all add: key_defs)

lemma getItem_setItem [simp]: "getItem (setItem s k v) k' = (if k' = k then Some v else getItem s k')"
  by (simp add: getItem_def setItem_def)

lemma getItem_removeItem [simp]: "getItem (removeItem s k) k' = (if k' = k then None else getItem s k')"
  by (simp add: getItem_def removeItem_def)

lemma storeTokens_pending:
  "getItem (storeTokens now tokens s) KEY_STATE = getItem s KEY_STATE"
  "getItem (storeTokens now tokens s) KEY_CODE_VERIFIER = getItem s KEY_CODE_VERIFIER"
  by (simp_all add: storeTokens_def Let_def split: option.splits)

lemma storeTokens_expires_at:
  "getItem (storeTokens now tokens s) KEY_EXPIRES_AT =
     (case expires_in tokens of
        None \<Rightarrow> getItem s KEY_EXPIRES_AT
      | Some n \<Rightarrow> if n \<noteq> 0 then Some (String_of_number (now + n * 1000)) else getItem s KEY_EXPIRES_AT)"
  by (simp add: storeTokens_def Let_def split: option.splits)

lemma storeTokens_refresh_token:
  "getItem (storeTokens now tokens s) KEY_REFRESH_TOKEN =
     (case refresh_token tokens of
        None \<Rightarrow> getItem s KEY_REFRESH_TOKEN
      | Some r \<Rightarrow> if r \<noteq> [] then Some r else getItem s KEY_REFRESH_TOKEN)"
  by (simp add: storeTokens_def Let_def split: option.splits)

lemma storeTokens_id_token:
  "getItem (storeTokens now tokens s) KEY_ID_TOKEN =
     (case id_token tokens of
        None \<Rightarrow> getItem s KEY_ID_TOKEN
      | Some r \<Rightarrow> if r \<noteq> [] then Some r else getItem s KEY_ID_TOKEN)"
  by (simp add: storeTokens_def Let_def split: option.splits)

lemma storeTokens_access_token:
  "getItem (storeTokens now tokens s) KEY_ACCESS_TOKEN = Some (access_token tokens)"
  by (simp add: storeTokens_def Let_def split: option.splits)

lemma isTokenExpired_stored:
  "getItem s KEY_EXPIRES_AT = Some (String_of_number e) \<Longrightarrow> isTokenExpired t s \<longleftrightarrow> e \<le> t"
  by (simp add: isTokenExpired_def truthy_def String_of_number_not_Nil Number_of_String)

lemma isTokenExpired_cong:
  "getItem s KEY_EXPIRES_AT = getItem s' KEY_EXPIRES_AT \<Longrightarrow> isTokenExpired t s = isTokenExpired t s'"
  by (simp add: isTokenExpired_def)

subsection \<open>The claims about the token store\<close>

text \<open>
  C5. After \<^verbatim>\<open>storeTokens\<close> of a response with \<^verbatim>\<open>expires_in = 3600\<close> at the instant
  \<open>now\<close> (in milliseconds), the stored expiry is the decimal string of
  \<open>now + 3600 * 1000\<close>, which reads back as that number: it comes from the lifetime and the
  local clock alone. \<^verbatim>\<open>isTokenExpired\<close> is false at \<open>now\<close> and is true at exactly the
  instants from \<open>now + 3600 * 1000\<close> on, so at every instant past 3600 seconds. With no
  stored expiry, \<^verbatim>\<open>isTokenExpired\<close> is true.
\<close>

theorem storeTokens_expiry_3600:
  assumes "expires_in tokens = Some 3600"
  shows "getItem (storeTokens now tokens s) KEY_EXPIRES_AT = Some (String_of_number (now + 3600 * 1000))
       \<and> Number_of_string (String_of_number (now + 3600 * 1000)) = Some (now + 3600 * 1000)
       \<and> \<not> isTokenExpired now (storeTokens now tokens s)
       \<and> (\<forall>t. isTokenExpired t (storeTokens now tokens s) \<longleftrightarrow> now + 3600 * 1000 \<le> t)
       \<and> (\<forall>t s0. getItem s0 KEY_EXPIRES_AT = None \<longrightarrow> isTokenExpired t s0)"
proof -
  have e: "getItem (storeTokens now tokens s) KEY_EXPIRES_AT = Some (String_of_number (now + 3600 * 1000))"
    using assms by (simp add: storeTokens_expires_at)
  have "\<And>t. isTokenExpired t (storeTokens now tokens s) \<longleftrightarrow> now + 3600 * 1000 \<le> t"
    using isTokenExpired_stored [OF e] by simp
  moreover have "\<And>t s0. getItem s0 KEY_EXPIRES_AT = None \<Longrightarrow> isTokenExpired t s0"
    by (simp add: isTokenExpired_def truthy_def)
  ultimately show ?thesis using e by (simp add: Number_of_String)
qed

theorem storeTokens_expiry_3600_witness:
  "expires_in example_tokens = Some 3600
   \<and> getItem (storeTokens 1700000000000 example_tokens session_storage) KEY_EXPIRES_AT
       = Some ''1700003600000''
   \<and> \<not> isTokenExpired 1700000000000 (storeTokens 1700000000000 example_tokens session_storage)
   \<and> \<not> isTokenExpired 1700003599999 (storeTokens 1700000000000 example_tokens session_storage)
   \<and> isTokenExpired 1700003600001 (storeTokens 1700000000000 example_tokens session_storage)
   \<and> isTokenExpired 0 Map.empty"
proof -
  have h: "expires_in example_tokens = Some 3600"
    by (simp add: example_tokens_def)
  have d: "String_of_number 1700003600000 = ''1700003600000''"
    by (simp add: String_of_number_def decimal.simps digit36_def digits36_def)
  have e: "getItem Map.empty KEY_EXPIRES_AT = None"
    by (simp add: getItem_def)
  show ?thesis
    using h d e storeTokens_expiry_3600 [OF h, of 1700000000000 session_storage] by simp
qed

text \<open>
  C10. When the response given to \<^verbatim>\<open>storeTokens\<close> has no \<^verbatim>\<open>expires_in\<close>, the expiry
  stored before stays, and \<^verbatim>\<open>isTokenExpired\<close> answers afterwards as it did before, at
  every instant; when it has no \<^verbatim>\<open>refresh_token\<close> (no \<^verbatim>\<open>id_token\<close>), the refresh
  token (ID token) stored before stays.
\<close>

theorem storeTokens_keeps_omitted:
  "(expires_in tokens = None \<longrightarrow>
      getItem (storeTokens now tokens s) KEY_EXPIRES_AT = getItem s KEY_EXPIRES_AT
      \<and> isTokenExpired t (storeTokens now tokens s) = isTokenExpired t s)
   \<and> (refresh_token tokens = None \<longrightarrow> getRefreshToken (storeTokens now tokens s) = getRefreshToken s)
   \<and> (id_token tokens = None \<longrightarrow> getIdToken (storeTokens now tokens s) = getIdToken s)"
proof -
  have "expires_in tokens = None \<Longrightarrow> isTokenExpired t (storeTokens now tokens s) = isTokenExpired t s"
    by (rule isTokenExpired_cong) (simp add: storeTokens_expires_at)
  then show ?thesis
    by (simp add: storeTokens_expires_at storeTokens_refresh_token storeTokens_id_token
        getRefreshToken_def getIdToken_def)
qed

theorem storeTokens_keeps_omitted_witness:
  "expires_in bare_tokens = None \<and> refresh_token bare_tokens = None \<and> id_token bare_tokens = None
   \<and> getAccessToken (storeTokens 500 bare_tokens session_storage) = Some ''AT3''
   \<and> getItem (storeTokens 500 bare_tokens session_storage) KEY_EXPIRES_AT = Some ''1000''
   \<and> isTokenExpired 2000 (storeTokens 500 bare_tokens session_storage)
   \<and> getRefreshToken (storeTokens 500 bare_tokens session_storage) = Some ''RT1''
   \<and> getIdToken (storeTokens 500 bare_tokens session_storage) = Some ''ID1''"
proof -
  have h: "expires_in bare_tokens = None" "refresh_token bare_tokens = None"
    "id_token bare_tokens = None"
    by (simp_all add: bare_tokens_def)
  have a: "getAccessToken (storeTokens 500 bare_tokens session_storage) = Some ''AT3''"
    by (simp add: getAccessToken_def storeTokens_access_token bare_tokens_def)
  have s: "getItem session_storage KEY_EXPIRES_AT = Some ''1000''"
    "getRefreshToken session_storage = Some ''RT1''" "getIdToken session_storage = Some ''ID1''"
    by (simp_all add: session_storage_def getItem_def getRefreshToken_def getIdToken_def)
  have n: "String_of_number 1000 = ''1000''"
    by (simp add: String_of_number_def decimal.simps digit36_def digits36_def)
  have x: "isTokenExpired 2000 session_storage"
    using isTokenExpired_stored [of session_storage 1000 2000] s n by simp
  show ?thesis
    using h a s x storeTokens_keeps_omitted [of bare_tokens 500 session_storage 2000] by simp
qed

section \<open>Properties of the flows\<close>

subsection \<open>Discovery\<close>

lemma getDiscovery_result:
  "(\<exists>d. discoveryCache w = Some d \<and> getDiscovery p cfg w = (Inr d, w))
   \<or> (\<exists>e. discoveryCache w = None
          \<and> getDiscovery p cfg w = (Inl e, send p (discoveryRequest cfg) w))
   \<or> (\<exists>d. discoveryCache w = None
          \<and> getDiscovery p cfg w = (Inr d, (send p (discoveryRequest cfg) w)\<lparr>discoveryCache := Some d\<rparr>))"
proof (cases "discoveryCache w")
  case (Some d)
  then show ?thesis by (simp add: getDiscovery_def)
next
  case None
  show ?thesis
  proof (cases "fetchDiscovery p (requests w) (discoveryRequest cfg)")
    case NetworkError
    then show ?thesis using None by (simp add: getDiscovery_def Let_def)
  next
    case (Response res)
    then show ?thesis using None
      by (cases "res_json res") (simp_all add: getDiscovery_def Let_def)
  qed
qed

lemma send_storage [simp]: "storage (send p req w) = storage w"
  by (simp add: send_def)

lemma send_sent [simp]: "sent (send p req w) = sent w @ [(req, storage w)]"
  by (simp add: send_def)

lemma send_discoveryCache [simp]: "discoveryCache (send p req w) = discoveryCache w"
  by (simp add: send_def)


lemma getDiscovery_sent:
  "\<exists>new. sent (snd (getDiscovery p cfg w)) = sent w @ new
      \<and> list_all (\<lambda>x. snd x = storage w) new \<and> length new \<le> 1"
  using getDiscovery_result [of w p cfg] by auto

subsection \<open>Callback validation\<close>

lemma truthy_Some: "truthy v \<Longrightarrow> \<exists>s. v = Some s \<and> s \<noteq> []"
  by (cases v) (simp_all add: truthy_def)

lemma handleCallback_mismatch_error:
  assumes "parseURL p (case cb of None \<Rightarrow> location_href p | Some u \<Rightarrow> u) = Some params"
    and "\<not> truthy (searchParams_get params ''error'')" "truthy (searchParams_get params ''code'')"
    and "\<not> truthy (getItem (storage w) KEY_STATE)
         \<or> getItem (storage w) KEY_STATE \<noteq> searchParams_get params ''state''"
  shows "handleCallback p cfg cb w = (Inl StateMismatch, w)"
proof -
  obtain c where "searchParams_get params ''code'' = Some c"
    using assms(3) truthy_Some by blast
  then show ?thesis using assms by (simp add: handleCallback_def Let_def)
qed

lemma handleCallback_invalid:
  assumes "parseURL p (case cb of None \<Rightarrow> location_href p | Some u \<Rightarrow> u) = Some params"
    and "truthy (searchParams_get params ''error'') \<or> \<not> truthy (searchParams_get params ''code'')
         \<or> \<not> truthy (getItem (storage w) KEY_STATE)
         \<or> getItem (storage w) KEY_STATE \<noteq> searchParams_get params ''state''"
  shows "\<exists>e. handleCallback p cfg cb w = (Inl e, w)"
proof (cases "truthy (searchParams_get params ''error'')")
  case True
  then obtain e where "searchParams_get params ''error'' = Some e"
    using truthy_Some by blast
  then show ?thesis using True assms(1) by (simp add: handleCallback_def Let_def)
next
  case False
  show ?thesis
  proof (cases "truthy (searchParams_get params ''code'')")
    case True
    then show ?thesis
      using handleCallback_mismatch_error [OF assms(1) False True] assms(2) False by blast
  next
    case nocode: False
    then show ?thesis using False assms(1) by (simp add: handleCallback_def Let_def)
  qed
qed

lemma handleCallback_unparsed:
  assumes "parseURL p (case cb of None \<Rightarrow> location_href p | Some u \<Rightarrow> u) = None"
  shows "handleCallback p cfg cb w = (Inl InvalidURL, w)"
  using assms by (simp add: handleCallback_def)

lemma handleCallback_no_pending:
  assumes "\<not> truthy (getItem (storage w) KEY_STATE)"
  shows "\<exists>e. handleCallback p cfg cb w = (Inl e, w)"
proof (cases "parseURL p (case cb of None \<Rightarrow> location_href p | Some u \<Rightarrow> u)")
  case None
  then show ?thesis by (simp add: handleCallback_unparsed)
next
  case (Some params)
  then show ?thesis using assms handleCallback_invalid by blast
qed

lemma handleCallback_valid:
  assumes "parseURL p (case cb of None \<Rightarrow> location_href p | Some u \<Rightarrow> u) = Some params"
    and "\<not> truthy (searchParams_get params ''error'')"
    and "searchParams_get params ''code'' = Some c" "c \<noteq> []"
    and "truthy (getItem (storage w) KEY_STATE)"
    and "getItem (storage w) KEY_STATE = searchParams_get params ''state''"
    and "getItem (storage w) KEY_CODE_VERIFIER = Some v" "v \<noteq> []"
  shows "handleCallback p cfg cb w =
           exchangeCode p cfg c v (w\<lparr>storage := removeItem (removeItem (storage w) KEY_STATE) KEY_CODE_VERIFIER\<rparr>)"
  using assms by (simp add: handleCallback_def exchangeCode_def Let_def truthy_def)

subsection \<open>Exchange and refresh\<close>

lemma exchangeCode_effect:
  "\<exists>new. sent (snd (exchangeCode p cfg c v w1)) = sent w1 @ new
      \<and> list_all (\<lambda>x. snd x = storage w1) new
      \<and> getItem (storage (snd (exchangeCode p cfg c v w1))) KEY_STATE = getItem (storage w1) KEY_STATE
      \<and> getItem (storage (snd (exchangeCode p cfg c v w1))) KEY_CODE_VERIFIER
          = getItem (storage w1) KEY_CODE_VERIFIER"
proof -
  let ?body = "\<lambda>d. [(''grant_type'', ''authorization_code''), (''client_id'', clientId cfg),
     (''code'', c), (''redirect_uri'', redirectUri cfg), (''code_verifier'', v)]"
  have step: "\<exists>new. sent (snd (exchangeCode p cfg c v w1)) = sent w1 @ new
      \<and> list_all (\<lambda>x. snd x = storage w1) new
      \<and> getItem (storage (snd (exchangeCode p cfg c v w1))) KEY_STATE = getItem (storage w1) KEY_STATE
      \<and> getItem (storage (snd (exchangeCode p cfg c v w1))) KEY_CODE_VERIFIER
          = getItem (storage w1) KEY_CODE_VERIFIER"
    if g: "getDiscovery p cfg w1 = (Inr d, w2)" and s: "storage w2 = storage w1"
      and n: "\<exists>new. sent w2 = sent w1 @ new \<and> list_all (\<lambda>x. snd x = storage w1) new"
    for d w2
  proof (cases "fetchToken p (requests w2) (tokenRequest d (?body d))")
    case NetworkError
    then show ?thesis using g s n by (auto simp: exchangeCode_def Let_def)
  next
    case (Response res)
    then show ?thesis using g s n
      by (cases "res_json res") (auto simp: exchangeCode_def Let_def storeTokens_pending)
  qed
  from getDiscovery_result [of w1 p cfg] show ?thesis
  proof (elim disjE exE conjE)
    fix d assume "discoveryCache w1 = Some d" "getDiscovery p cfg w1 = (Inr d, w1)"
    then show ?thesis by (intro step [of d w1]) simp_all
  next
    fix e assume "getDiscovery p cfg w1 = (Inl e, send p (discoveryRequest cfg) w1)"
    then show ?thesis by (simp add: exchangeCode_def)
  next
    fix d
    assume "getDiscovery p cfg w1 = (Inr d, (send p (discoveryRequest cfg) w1)\<lparr>discoveryCache := Some d\<rparr>)"
    then show ?thesis
      by (intro step [of d "(send p (discoveryRequest cfg) w1)\<lparr>discoveryCache := Some d\<rparr>"]) simp_all
  qed
qed

lemma refreshAccessToken_failure:
  assumes "refreshAccessToken p cfg w = (Inl e, w')"
  shows "storage w' = storage w"
proof (cases "truthy (getItem (storage w) KEY_REFRESH_TOKEN)")
  case False
  then show ?thesis using assms by (simp add: refreshAccessToken_def Let_def)
next
  case True
  then obtain rt where rt: "getItem (storage w) KEY_REFRESH_TOKEN = Some rt"
    using truthy_Some by blast
  let ?body = "[(''grant_type'', ''refresh_token''), (''client_id'', clientId cfg), (''refresh_token'', rt)]"
  have step: "storage w' = storage w"
    if g: "getDiscovery p cfg w = (Inr d, w1)" and s: "storage w1 = storage w" for d w1
  proof (cases "fetchToken p (requests w1) (tokenRequest d ?body)")
    case NetworkError
    then show ?thesis using g s assms True rt by (auto simp: refreshAccessToken_def Let_def)
  next
    case (Response res)
    then show ?thesis using g s assms True rt
      by (cases "res_json res") (auto simp: refreshAccessToken_def Let_def split: if_splits)
  qed
  from getDiscovery_result [of w p cfg] show ?thesis
  proof (elim disjE exE conjE)
    fix d assume "discoveryCache w = Some d" "getDiscovery p cfg w = (Inr d, w)"
    then show ?thesis by (intro step [of d w]) simp_all
  next
    fix e' assume "getDiscovery p cfg w = (Inl e', send p (discoveryRequest cfg) w)"
    then show ?thesis using assms True rt by (auto simp: refreshAccessToken_def)
  next
    fix d
    assume "getDiscovery p cfg w = (Inr d, (send p (discoveryRequest cfg) w)\<lparr>discoveryCache := Some d\<rparr>)"
    then show ?thesis
      by (intro step [of d "(send p (discoveryRequest cfg) w)\<lparr>discoveryCache := Some d\<rparr>"]) simp_all
  qed
qed


lemma requests_send [simp]: "requests (send p req w) = requests w @ [req]"
  by (simp add: requests_def)




subsection \<open>Silent sign-in\<close>

lemma cleanup_no_pending: "\<not> truthy (getItem (storage (cleanup w)) KEY_STATE)"
  by (simp add: cleanup_def truthy_def)

lemma silentEvents_load:
  assumes "u \<noteq> []" "prefix (redirectUri cfg) u"
  shows "silentEvents p cfg (Load (Some u) # evs) w = (Resolved None, cleanup w)"
proof -
  obtain e where "handleCallback p cfg (Some u) (cleanup w) = (Inl e, cleanup w)"
    using handleCallback_no_pending [OF cleanup_no_pending] by blast
  then show ?thesis using assms by (simp add: truthy_def)
qed

lemma silentEvents_never_tokens: "fst (silentEvents p cfg evs w) \<noteq> Resolved (Some t)"
proof (induction p cfg evs w rule: silentEvents.induct)
  case (1 p cfg w)
  show ?case by simp
next
  case (2 p cfg evs w)
  show ?case by simp
next
  case (3 p cfg evs w)
  show ?case by simp
next
  case (4 p cfg iframeUrl evs w)
  show ?case
  proof (cases "truthy iframeUrl")
    case False
    then show ?thesis using "4.IH"(1) by simp
  next
    case True
    then obtain u where u: "iframeUrl = Some u" "u \<noteq> []"
      using truthy_Some by blast
    show ?thesis
    proof (cases "prefix (redirectUri cfg) u")
      case True
      then show ?thesis using silentEvents_load [OF u(2) True] u by simp
    next
      case False
      then show ?thesis using "4.IH"(2) [of u] u True by simp
    qed
  qed
qed

lemma signinSilent_never_tokens:
  "fst (signinSilent p cfg vb sb evs w) \<noteq> Resolved (Some t)"
  by (simp add: signinSilent_def Let_def silentEvents_never_tokens
      split: prod.splits sum.splits option.splits)

subsection \<open>The example deployment\<close>

lemma example_parse:
  "parseURL (example_platform d t) callback_ok = Some [(''code'', ''abc''), (''state'', example_state)]"
  "parseURL (example_platform d t) callback_forged = Some [(''code'', ''abc''), (''state'', ''forged'')]"
  "parseURL (example_platform d t) callback_error
     = Some [(''error'', ''access_denied''), (''state'', ''forged'')]"
  "parseURL (example_platform d t) callback_no_code = Some [(''state'', example_state)]"
  "parseURL (example_platform d t) ''https://iam.example/authorize'' = Some []"
  by (simp_all add: example_platform_def example_parseURL_def callback_ok_def callback_forged_def
      callback_error_def callback_no_code_def)

lemma pending_storage_items:
  "getItem pending_storage KEY_STATE = Some example_state"
  "getItem pending_storage KEY_CODE_VERIFIER = Some ''verifier''"
  by (simp_all add: pending_storage_def getItem_def)

lemma example_world_fields [simp]:
  "storage (example_world s) = s" "discoveryCache (example_world s) = None"
  "sent (example_world s) = []" "clock (example_world s) = 1700000000000"
  "iframe (example_world s) = None"
  by (simp_all add: example_world_def)

lemma example_fetch [simp]:
  "fetchDiscovery (example_platform d t) h r = d" "fetchToken (example_platform d t) h r = t"
  "latency (example_platform d t) h r = 25" "digest (example_platform d t) = example_digest"
  by (simp_all add: example_platform_def)

lemma example_exchange:
  "fst (handleCallback
          (example_platform (ok_response example_discovery) (ok_response example_tokens))
          example_config (Some callback_ok) (example_world pending_storage))
     = Inr example_tokens"
  by (simp add: handleCallback_def exchangeCode_def getDiscovery_def example_parse
      pending_storage_items searchParams_get_def truthy_def Let_def ok_response_def res_ok_def
      example_state_def)

lemma session_storage_items:
  "getItem session_storage KEY_ACCESS_TOKEN = Some ''AT1''"
  "getItem session_storage KEY_REFRESH_TOKEN = Some ''RT1''"
  "getItem session_storage KEY_ID_TOKEN = Some ''ID1''"
  "getItem session_storage KEY_EXPIRES_AT = Some ''1000''"
  by (simp_all add: session_storage_def getItem_def)

lemma example_refresh_denied:
  "fst (refreshAccessToken (example_platform (ok_response example_discovery) (error_response 401))
          example_config (example_world session_storage))
     = Inl (TokenRefreshFailed 401 ''denied'')"
  by (simp add: refreshAccessToken_def getDiscovery_def session_storage_items truthy_def Let_def
      ok_response_def error_response_def res_ok_def textOrEmpty_def)

lemma example_state_generated: "generateState example_state_bytes = example_state"
proof -
  have "generateRandomString (2 * 16) (replicate 32 0) = concat (map byteToBase36 (take 16 (replicate 32 0)))"
    by (rule generateRandomString_even)
  also have "\<dots> = concat (replicate 16 ''00'')"
    by (simp add: byteToBase36_eq digit36_def digits36_def)
  also have "\<dots> = example_state"
    unfolding example_state_def by code_simp
  finally show ?thesis by (simp add: generateState_def example_state_bytes_def)
qed




section \<open>The claims about the flows\<close>

text \<open>
  C1 fails on the code. In \<^verbatim>\<open>signinSilent\<close>, once discovery has succeeded and the
  authorization endpoint parses, a load event that reports a URL starting with the
  redirect URI resolves the promise with \<^verbatim>\<open>null\<close>, whatever code and state the URL
  carries and whatever the token endpoint would answer: the load handler calls
  \<^verbatim>\<open>cleanup()\<close>, which removes the stored state and verifier, before it calls
  \<^verbatim>\<open>handleCallback\<close>, which then finds no saved state and rejects.
\<close>

theorem signinSilent_load_resolves_null:
  assumes "fst (getDiscovery p cfg w) = Inr d"
    and "authorization_endpoint d = Some endpoint"
    and "parseURL p endpoint = Some params"
    and "u \<noteq> []" and "prefix (redirectUri cfg) u"
  shows "fst (signinSilent p cfg verifierBytes stateBytes (Load (Some u) # evs) w) = Resolved None"
proof -
  obtain w1 where "getDiscovery p cfg w = (Inr d, w1)"
    using assms(1) by (cases "getDiscovery p cfg w") simp
  then show ?thesis
    using assms(2,3) silentEvents_load [OF assms(4,5)]
    by (simp add: signinSilent_def Let_def)
qed

theorem signinSilent_load_resolves_null_witness:
  "fst (getDiscovery (example_platform (ok_response example_discovery) (ok_response example_tokens))
          example_config (example_world Map.empty)) = Inr example_discovery
   \<and> authorization_endpoint example_discovery = Some ''https://iam.example/authorize''
   \<and> parseURL (example_platform (ok_response example_discovery) (ok_response example_tokens))
        ''https://iam.example/authorize'' = Some []
   \<and> prefix (redirectUri example_config) callback_ok
   \<and> parseURL (example_platform (ok_response example_discovery) (ok_response example_tokens))
        callback_ok = Some [(''code'', ''abc''), (''state'', generateState example_state_bytes)]
   \<and> fst (signinSilent (example_platform (ok_response example_discovery) (ok_response example_tokens))
            example_config example_verifier_bytes example_state_bytes
            [Load (Some callback_ok), TimerFired] (example_world Map.empty))
       = Resolved None"
proof -
  let ?p = "example_platform (ok_response example_discovery) (ok_response example_tokens)"
  have h1: "fst (getDiscovery ?p example_config (example_world Map.empty)) = Inr example_discovery"
    by (simp add: getDiscovery_def Let_def ok_response_def res_ok_def)
  have h2: "authorization_endpoint example_discovery = Some ''https://iam.example/authorize''"
    by (simp add: example_discovery_def)
  have h3: "parseURL ?p ''https://iam.example/authorize'' = Some []"
    by (simp add: example_parse)
  have h4: "callback_ok \<noteq> []"
    by (simp add: callback_ok_def)
  have h5: "prefix (redirectUri example_config) callback_ok"
    by (simp add: example_config_def callback_ok_def)
  show ?thesis
    using h1 h2 h3 h5 example_parse(1) example_state_generated
      signinSilent_load_resolves_null [OF h1 h2 h3 h4 h5, of example_verifier_bytes
        example_state_bytes "[TimerFired]"]
    by simp
qed

text \<open>
  C2, as stated, fails where the callback also carries a provider error: the provider-error
  check comes before the state check, so the failure is the OAuth error, not the
  state-mismatch error.
\<close>

theorem handleCallback_mismatch_counterexample:
  "parseURL (example_platform (ok_response example_discovery) (ok_response example_tokens))
      callback_error = Some [(''error'', ''access_denied''), (''state'', ''forged'')]
   \<and> searchParams_get [(''error'', ''access_denied''), (''state'', ''forged'')] ''state''
       = Some ''forged''
   \<and> getItem (storage (example_world pending_storage)) KEY_STATE = Some example_state
   \<and> Some example_state \<noteq> Some ''forged''
   \<and> fst (handleCallback
             (example_platform (ok_response example_discovery) (ok_response example_tokens))
             example_config (Some callback_error) (example_world pending_storage))
       = Inl (OAuthError ''access_denied'')
   \<and> OAuthError ''access_denied'' \<noteq> StateMismatch"
  by (simp add: handleCallback_def example_parse pending_storage_items searchParams_get_def
      truthy_def example_state_def)

text \<open>
  C2, amended. For every callback URL whose state parameter differs from the persisted
  state under exact comparison, or for which no state is persisted, \<^verbatim>\<open>handleCallback\<close>
  fails and leaves the world as it was: no request of any kind is sent, so none to the
  token endpoint. The failure is the state-mismatch error when the URL carries no
  provider error and carries a code.
\<close>

theorem handleCallback_state_mismatch:
  assumes "parseURL p (case cb of None \<Rightarrow> location_href p | Some u \<Rightarrow> u) = Some params"
    and "getItem (storage w) KEY_STATE = None
         \<or> getItem (storage w) KEY_STATE \<noteq> searchParams_get params ''state''"
  shows "(\<exists>e. fst (handleCallback p cfg cb w) = Inl e)
       \<and> snd (handleCallback p cfg cb w) = w
       \<and> sent (snd (handleCallback p cfg cb w)) = sent w
       \<and> (\<not> truthy (searchParams_get params ''error'') \<and> truthy (searchParams_get params ''code'')
            \<longrightarrow> fst (handleCallback p cfg cb w) = Inl StateMismatch)"
proof -
  have m: "\<not> truthy (getItem (storage w) KEY_STATE)
         \<or> getItem (storage w) KEY_STATE \<noteq> searchParams_get params ''state''"
    using assms(2) by (auto simp: truthy_def)
  then obtain e where "handleCallback p cfg cb w = (Inl e, w)"
    using handleCallback_invalid [OF assms(1), of w cfg] by blast
  moreover have "handleCallback p cfg cb w = (Inl StateMismatch, w)"
    if "\<not> truthy (searchParams_get params ''error'')" "truthy (searchParams_get params ''code'')"
    using handleCallback_mismatch_error [OF assms(1) that m] .
  ultimately show ?thesis by auto
qed

theorem handleCallback_state_mismatch_witness:
  "parseURL (example_platform (ok_response example_discovery) (ok_response example_tokens))
      (case Some callback_forged of None \<Rightarrow> location_href (example_platform (ok_response example_discovery) (ok_response example_tokens)) | Some u \<Rightarrow> u)
     = Some [(''code'', ''abc''), (''state'', ''forged'')]
   \<and> getItem (storage (example_world pending_storage)) KEY_STATE
       \<noteq> searchParams_get [(''code'', ''abc''), (''state'', ''forged'')] ''state''
   \<and> fst (handleCallback
             (example_platform (ok_response example_discovery) (ok_response example_tokens))
             example_config (Some callback_forged) (example_world pending_storage))
       = Inl StateMismatch
   \<and> sent (snd (handleCallback
             (example_platform (ok_response example_discovery) (ok_response example_tokens))
             example_config (Some callback_forged) (example_world pending_storage))) = []"
proof -
  let ?p = "example_platform (ok_response example_discovery) (ok_response example_tokens)"
  let ?params = "[(''code'', ''abc''), (''state'', ''forged'')]"
  have h1: "parseURL ?p (case Some callback_forged of None \<Rightarrow> location_href ?p | Some u \<Rightarrow> u)
      = Some ?params"
    by (simp add: example_parse)
  have h2: "getItem (storage (example_world pending_storage)) KEY_STATE = None
      \<or> getItem (storage (example_world pending_storage)) KEY_STATE
         \<noteq> searchParams_get ?params ''state''"
    by (simp add: pending_storage_items searchParams_get_def example_state_def)
  have h3: "\<not> truthy (searchParams_get ?params ''error'')" "truthy (searchParams_get ?params ''code'')"
    by (simp_all add: searchParams_get_def truthy_def)
  show ?thesis
    using h1 h3 handleCallback_state_mismatch [OF h1 h2, of example_config]
    by (simp add: pending_storage_items searchParams_get_def example_state_def)
qed

text \<open>
  C3, as stated, fails where validation fails: a callback without a code is rejected and
  the pending state and verifier are still in storage afterwards.
\<close>

theorem handleCallback_pending_kept_counterexample:
  "getItem (storage (example_world pending_storage)) KEY_STATE = Some example_state
   \<and> getItem (storage (example_world pending_storage)) KEY_CODE_VERIFIER = Some ''verifier''
   \<and> fst (handleCallback
             (example_platform (ok_response example_discovery) (ok_response example_tokens))
             example_config (Some callback_no_code) (example_world pending_storage))
       = Inl MissingCode
   \<and> getItem (storage (snd (handleCallback
             (example_platform (ok_response example_discovery) (ok_response example_tokens))
             example_config (Some callback_no_code) (example_world pending_storage)))) KEY_STATE
       = Some example_state
   \<and> getItem (storage (snd (handleCallback
             (example_platform (ok_response example_discovery) (ok_response example_tokens))
             example_config (Some callback_no_code) (example_world pending_storage))))
         KEY_CODE_VERIFIER
       = Some ''verifier''"
  by (simp add: handleCallback_def example_parse pending_storage_items searchParams_get_def
      truthy_def Let_def)

text \<open>
  C3, amended. When the callback passes validation (no provider error, a code, a saved
  state equal to the callback's state, a saved verifier), the state and the verifier are
  gone from storage at the end of the call, whether the exchange succeeds or fails, and
  they were already gone when each request of the call was sent, so they are deleted
  before the exchange begins. When the callback fails validation on the provider error,
  the code or the state, the call leaves the world, and so the pending request, as it was.
\<close>

theorem handleCallback_pending_request:
  assumes "parseURL p (case cb of None \<Rightarrow> location_href p | Some u \<Rightarrow> u) = Some params"
  shows "(\<not> truthy (searchParams_get params ''error'') \<and> truthy (searchParams_get params ''code'')
          \<and> truthy (getItem (storage w) KEY_STATE)
          \<and> getItem (storage w) KEY_STATE = searchParams_get params ''state''
          \<and> truthy (getItem (storage w) KEY_CODE_VERIFIER)
          \<longrightarrow> getItem (storage (snd (handleCallback p cfg cb w))) KEY_STATE = None
            \<and> getItem (storage (snd (handleCallback p cfg cb w))) KEY_CODE_VERIFIER = None
            \<and> (\<exists>new. sent (snd (handleCallback p cfg cb w)) = sent w @ new
                  \<and> list_all (\<lambda>x. getItem (snd x) KEY_STATE = None
                                  \<and> getItem (snd x) KEY_CODE_VERIFIER = None) new))
       \<and> (truthy (searchParams_get params ''error'') \<or> \<not> truthy (searchParams_get params ''code'')
          \<or> \<not> truthy (getItem (storage w) KEY_STATE)
          \<or> getItem (storage w) KEY_STATE \<noteq> searchParams_get params ''state''
          \<longrightarrow> snd (handleCallback p cfg cb w) = w)"
proof (intro conjI impI)
  assume "truthy (searchParams_get params ''error'') \<or> \<not> truthy (searchParams_get params ''code'')
          \<or> \<not> truthy (getItem (storage w) KEY_STATE)
          \<or> getItem (storage w) KEY_STATE \<noteq> searchParams_get params ''state''"
  then show "snd (handleCallback p cfg cb w) = w"
    using handleCallback_invalid [OF assms, of w cfg] by auto
next
  assume v: "\<not> truthy (searchParams_get params ''error'') \<and> truthy (searchParams_get params ''code'')
          \<and> truthy (getItem (storage w) KEY_STATE)
          \<and> getItem (storage w) KEY_STATE = searchParams_get params ''state''
          \<and> truthy (getItem (storage w) KEY_CODE_VERIFIER)"
  obtain c where c: "searchParams_get params ''code'' = Some c" "c \<noteq> []"
    using v truthy_Some by blast
  obtain cv where cv: "getItem (storage w) KEY_CODE_VERIFIER = Some cv" "cv \<noteq> []"
    using v truthy_Some by blast
  define w1 where "w1 = w\<lparr>storage := removeItem (removeItem (storage w) KEY_STATE) KEY_CODE_VERIFIER\<rparr>"
  have hc: "handleCallback p cfg cb w = exchangeCode p cfg c cv w1"
  proof -
    from v have "\<not> truthy (searchParams_get params ''error'')"
      "truthy (getItem (storage w) KEY_STATE)"
      "getItem (storage w) KEY_STATE = searchParams_get params ''state''"
      by blast+
    then show ?thesis
      unfolding w1_def using assms c cv by (intro handleCallback_valid)
  qed
  have s1: "getItem (storage w1) KEY_STATE = None" "getItem (storage w1) KEY_CODE_VERIFIER = None"
    "sent w1 = sent w"
    by (simp_all add: w1_def)
  obtain new where new: "sent (snd (exchangeCode p cfg c cv w1)) = sent w1 @ new"
      "list_all (\<lambda>x. snd x = storage w1) new"
      "getItem (storage (snd (exchangeCode p cfg c cv w1))) KEY_STATE = getItem (storage w1) KEY_STATE"
      "getItem (storage (snd (exchangeCode p cfg c cv w1))) KEY_CODE_VERIFIER
          = getItem (storage w1) KEY_CODE_VERIFIER"
    using exchangeCode_effect [of p cfg c cv w1] by blast
  have "list_all (\<lambda>x. getItem (snd x) KEY_STATE = None \<and> getItem (snd x) KEY_CODE_VERIFIER = None) new"
    using new(2) s1 by (simp add: list_all_iff)
  then have "\<exists>new. sent (snd (handleCallback p cfg cb w)) = sent w @ new
                  \<and> list_all (\<lambda>x. getItem (snd x) KEY_STATE = None
                                  \<and> getItem (snd x) KEY_CODE_VERIFIER = None) new"
    using new(1) s1 hc by auto
  moreover have "getItem (storage (snd (handleCallback p cfg cb w))) KEY_STATE = None"
    "getItem (storage (snd (handleCallback p cfg cb w))) KEY_CODE_VERIFIER = None"
    using new(3,4) s1 hc by simp_all
  ultimately show "getItem (storage (snd (handleCallback p cfg cb w))) KEY_STATE = None"
    "getItem (storage (snd (handleCallback p cfg cb w))) KEY_CODE_VERIFIER = None"
    "\<exists>new. sent (snd (handleCallback p cfg cb w)) = sent w @ new
                  \<and> list_all (\<lambda>x. getItem (snd x) KEY_STATE = None
                                  \<and> getItem (snd x) KEY_CODE_VERIFIER = None) new"
    by simp_all
qed

theorem handleCallback_pending_request_witness:
  "parseURL (example_platform (ok_response example_discovery) (ok_response example_tokens))
      (case Some callback_ok of
         None \<Rightarrow> location_href
                   (example_platform (ok_response example_discovery) (ok_response example_tokens))
       | Some u \<Rightarrow> u)
     = Some [(''code'', ''abc''), (''state'', example_state)]
   \<and> getItem (storage (example_world pending_storage)) KEY_STATE
       = searchParams_get [(''code'', ''abc''), (''state'', example_state)] ''state''
   \<and> truthy (getItem (storage (example_world pending_storage)) KEY_STATE)
   \<and> truthy (getItem (storage (example_world pending_storage)) KEY_CODE_VERIFIER)
   \<and> fst (handleCallback
            (example_platform (ok_response example_discovery) (ok_response example_tokens))
            example_config (Some callback_ok) (example_world pending_storage))
       = Inr example_tokens
   \<and> getItem (storage (snd (handleCallback
            (example_platform (ok_response example_discovery) (ok_response example_tokens))
            example_config (Some callback_ok) (example_world pending_storage)))) KEY_STATE = None
   \<and> getItem (storage (snd (handleCallback
            (example_platform (ok_response example_discovery) (ok_response example_tokens))
            example_config (Some callback_ok) (example_world pending_storage)))) KEY_CODE_VERIFIER
       = None
   \<and> getItem (storage (example_world pending_storage)) KEY_STATE
       \<noteq> searchParams_get [(''code'', ''abc''), (''state'', ''forged'')] ''state''
   \<and> getItem (storage (snd (handleCallback
            (example_platform (ok_response example_discovery) (ok_response example_tokens))
            example_config (Some callback_forged) (example_world pending_storage)))) KEY_STATE
       = Some example_state"
proof -
  let ?p = "example_platform (ok_response example_discovery) (ok_response example_tokens)"
  let ?params = "[(''code'', ''abc''), (''state'', example_state)]"
  have h: "parseURL ?p (case Some callback_ok of None \<Rightarrow> location_href ?p | Some u \<Rightarrow> u)
      = Some ?params"
    by (simp add: example_parse)
  have v: "\<not> truthy (searchParams_get ?params ''error'')" "truthy (searchParams_get ?params ''code'')"
    "truthy (getItem (storage (example_world pending_storage)) KEY_STATE)"
    "getItem (storage (example_world pending_storage)) KEY_STATE
       = searchParams_get ?params ''state''"
    "truthy (getItem (storage (example_world pending_storage)) KEY_CODE_VERIFIER)"
    by (simp_all add: searchParams_get_def truthy_def pending_storage_items example_state_def)
  have consumed: "getItem (storage (snd (handleCallback ?p example_config (Some callback_ok)
        (example_world pending_storage)))) KEY_STATE = None
      \<and> getItem (storage (snd (handleCallback ?p example_config (Some callback_ok)
        (example_world pending_storage)))) KEY_CODE_VERIFIER = None"
    using v handleCallback_pending_request
      [OF h, of "example_world pending_storage" example_config]
    by simp
  let ?forged = "[(''code'', ''abc''), (''state'', ''forged'')]"
  have h': "parseURL ?p (case Some callback_forged of None \<Rightarrow> location_href ?p | Some u \<Rightarrow> u)
      = Some ?forged"
    by (simp add: example_parse)
  have m: "getItem (storage (example_world pending_storage)) KEY_STATE
       \<noteq> searchParams_get ?forged ''state''"
    by (simp add: searchParams_get_def pending_storage_items example_state_def)
  have kept: "getItem (storage (snd (handleCallback ?p example_config (Some callback_forged)
        (example_world pending_storage)))) KEY_STATE = Some example_state"
    using m handleCallback_pending_request
      [OF h', of "example_world pending_storage" example_config]
    by (simp add: pending_storage_items)
  show ?thesis
    using h v(3,4,5) example_exchange consumed m kept by simp
qed






text \<open>
  C8. When \<^verbatim>\<open>refreshAccessToken\<close> fails, with whatever error, the storage is unchanged:
  the access token, the refresh token, the ID token and the expiry are what they were.
  It does fail when no non-empty refresh token is stored, and when the token endpoint
  answers with a non-success status.
\<close>

theorem refreshAccessToken_failure_keeps_tokens:
  "(\<forall>e. fst (refreshAccessToken p cfg w) = Inl e \<longrightarrow>
       storage (snd (refreshAccessToken p cfg w)) = storage w
       \<and> getAccessToken (storage (snd (refreshAccessToken p cfg w))) = getAccessToken (storage w)
       \<and> getRefreshToken (storage (snd (refreshAccessToken p cfg w))) = getRefreshToken (storage w)
       \<and> getIdToken (storage (snd (refreshAccessToken p cfg w))) = getIdToken (storage w)
       \<and> getItem (storage (snd (refreshAccessToken p cfg w))) KEY_EXPIRES_AT
           = getItem (storage w) KEY_EXPIRES_AT)
   \<and> (\<not> truthy (getRefreshToken (storage w))
        \<longrightarrow> fst (refreshAccessToken p cfg w) = Inl NoRefreshToken)
   \<and> (\<forall>rt d res.
         getRefreshToken (storage w) = Some rt \<and> rt \<noteq> []
         \<and> fst (getDiscovery p cfg w) = Inr d
         \<and> fetchToken p (requests (snd (getDiscovery p cfg w)))
              (tokenRequest d [(''grant_type'', ''refresh_token''), (''client_id'', clientId cfg),
                               (''refresh_token'', rt)]) = Response res
         \<and> \<not> res_ok res
         \<longrightarrow> fst (refreshAccessToken p cfg w)
               = Inl (TokenRefreshFailed (res_status res) (textOrEmpty res)))"
proof (intro conjI allI impI)
  fix e assume "fst (refreshAccessToken p cfg w) = Inl e"
  then have "refreshAccessToken p cfg w = (Inl e, snd (refreshAccessToken p cfg w))"
    by (simp add: prod_eq_iff)
  then have s: "storage (snd (refreshAccessToken p cfg w)) = storage w"
    by (rule refreshAccessToken_failure)
  then show "storage (snd (refreshAccessToken p cfg w)) = storage w"
    "getAccessToken (storage (snd (refreshAccessToken p cfg w))) = getAccessToken (storage w)"
    "getRefreshToken (storage (snd (refreshAccessToken p cfg w))) = getRefreshToken (storage w)"
    "getIdToken (storage (snd (refreshAccessToken p cfg w))) = getIdToken (storage w)"
    "getItem (storage (snd (refreshAccessToken p cfg w))) KEY_EXPIRES_AT
           = getItem (storage w) KEY_EXPIRES_AT"
    by simp_all
next
  assume "\<not> truthy (getRefreshToken (storage w))"
  then show "fst (refreshAccessToken p cfg w) = Inl NoRefreshToken"
    by (simp add: refreshAccessToken_def getRefreshToken_def Let_def)
next
  fix rt d res
  assume a: "getRefreshToken (storage w) = Some rt \<and> rt \<noteq> []
         \<and> fst (getDiscovery p cfg w) = Inr d
         \<and> fetchToken p (requests (snd (getDiscovery p cfg w)))
              (tokenRequest d [(''grant_type'', ''refresh_token''), (''client_id'', clientId cfg),
                               (''refresh_token'', rt)]) = Response res
         \<and> \<not> res_ok res"
  obtain w1 where g: "getDiscovery p cfg w = (Inr d, w1)"
    using a by (cases "getDiscovery p cfg w") simp
  have "fetchToken p (requests w1)
              (tokenRequest d [(''grant_type'', ''refresh_token''), (''client_id'', clientId cfg),
                               (''refresh_token'', rt)]) = Response res"
    using a g by simp
  then show "fst (refreshAccessToken p cfg w)
               = Inl (TokenRefreshFailed (res_status res) (textOrEmpty res))"
    using a g by (simp add: refreshAccessToken_def getRefreshToken_def truthy_def Let_def)
qed

theorem refreshAccessToken_failure_keeps_tokens_witness:
  "fst (refreshAccessToken (example_platform (ok_response example_discovery) (error_response 401))
          example_config (example_world session_storage))
     = Inl (TokenRefreshFailed 401 ''denied'')
   \<and> getAccessToken (storage (snd (refreshAccessToken
          (example_platform (ok_response example_discovery) (error_response 401))
          example_config (example_world session_storage)))) = Some ''AT1''
   \<and> getRefreshToken (storage (snd (refreshAccessToken
          (example_platform (ok_response example_discovery) (error_response 401))
          example_config (example_world session_storage)))) = Some ''RT1''
   \<and> getIdToken (storage (snd (refreshAccessToken
          (example_platform (ok_response example_discovery) (error_response 401))
          example_config (example_world session_storage)))) = Some ''ID1''
   \<and> getItem (storage (snd (refreshAccessToken
          (example_platform (ok_response example_discovery) (error_response 401))
          example_config (example_world session_storage)))) KEY_EXPIRES_AT = Some ''1000''
   \<and> \<not> truthy (getRefreshToken (storage (example_world fresh_storage)))
   \<and> fst (refreshAccessToken
          (example_platform (ok_response example_discovery) (ok_response example_tokens))
          example_config (example_world fresh_storage)) = Inl NoRefreshToken
   \<and> getAccessToken (storage (snd (refreshAccessToken
          (example_platform (ok_response example_discovery) (ok_response example_tokens))
          example_config (example_world fresh_storage)))) = Some ''AT1''"
proof -
  have n: "\<not> truthy (getRefreshToken (storage (example_world fresh_storage)))"
    "getAccessToken (storage (example_world fresh_storage)) = Some ''AT1''"
    by (simp_all add: getRefreshToken_def getAccessToken_def fresh_storage_def getItem_def
        truthy_def)
  show ?thesis
    using n example_refresh_denied
      refreshAccessToken_failure_keeps_tokens
        [of "example_platform (ok_response example_discovery) (error_response 401)"
            example_config "example_world session_storage"]
      refreshAccessToken_failure_keeps_tokens
        [of "example_platform (ok_response example_discovery) (ok_response example_tokens)"
            example_config "example_world fresh_storage"]
    by (simp add: session_storage_items getAccessToken_def getRefreshToken_def getIdToken_def)
qed

end
